theory Spec2Isabelle
  imports Complex_Main
begin

section \<open>Strings\<close>

text \<open>
  A JavaScript string is a sequence of code units and \<open>length\<close> counts them. The
  embedding takes \<^typ>\<open>string\<close>, so a text is a sequence of code units in the range
  0x00 to 0xFF (Latin-1). On that range white space, letter case, digits and word
  characters are as ECMAScript defines them.
\<close>

definition charCode :: "char \<Rightarrow> nat" where
  "charCode c = of_char c"

text \<open>White space and line terminators (\<open>\s\<close> of a regular expression, \<open>trim\<close>).\<close>

definition is_space :: "char \<Rightarrow> bool" where
  "is_space c = (charCode c \<in> set [9, 10, 11, 12, 13, 32, 160])"

definition is_digit :: "char \<Rightarrow> bool" where
  "is_digit c = (48 \<le> charCode c \<and> charCode c \<le> 57)"

definition is_upper :: "char \<Rightarrow> bool" where
  "is_upper c = (65 \<le> charCode c \<and> charCode c \<le> 90)"

definition is_lower :: "char \<Rightarrow> bool" where
  "is_lower c = (97 \<le> charCode c \<and> charCode c \<le> 122)"

text \<open>\<open>\w\<close> is \<open>[A-Za-z0-9_]\<close>.\<close>

definition is_word :: "char \<Rightarrow> bool" where
  "is_word c = (is_upper c \<or> is_lower c \<or> is_digit c \<or> c = CHR ''_'')"

text \<open>
  \<open>toLowerCase\<close>: the letters A to Z, and the Latin-1 capitals 0xC0 to 0xDE but the
  multiplication sign 0xD7, move up by 32; every other code unit stays.
\<close>

definition lower_char :: "char \<Rightarrow> char" where
  "lower_char c =
     (if is_upper c \<or> (192 \<le> charCode c \<and> charCode c \<le> 222 \<and> charCode c \<noteq> 215)
      then char_of (charCode c + 32) else c)"

definition toLowerCase :: "string \<Rightarrow> string" where
  "toLowerCase s = map lower_char s"

definition trim :: "string \<Rightarrow> string" where
  "trim s = rev (dropWhile is_space (rev (dropWhile is_space s)))"

text \<open>\<open>s.substring(a, b)\<close>: both indices are clamped to the string and swapped when out of order.\<close>

definition substring :: "string \<Rightarrow> int \<Rightarrow> int \<Rightarrow> string" where
  "substring s a b =
     (let n = int (length s);
          a' = max 0 (min a n);
          b' = max 0 (min b n)
      in take (nat (max a' b' - min a' b')) (drop (nat (min a' b')) s))"

text \<open>\<open>s.includes(p)\<close>: \<open>p\<close> occurs in \<open>s\<close> at some position.\<close>

fun str_includes :: "string \<Rightarrow> string \<Rightarrow> bool" where
  "str_includes [] p = (p = [])"
| "str_includes (c # cs) p = (take (length p) (c # cs) = p \<or> str_includes cs p)"

text \<open>
  \<open>s.lastIndexOf(p, fromIndex)\<close>: the largest index not above \<open>fromIndex\<close> at which
  \<open>p\<close> starts, or -1.
\<close>

fun last_index_from :: "string \<Rightarrow> string \<Rightarrow> nat \<Rightarrow> int" where
  "last_index_from s p 0 = (if take (length p) s = p then 0 else - 1)"
| "last_index_from s p (Suc k) =
     (if take (length p) (drop (Suc k) s) = p then int (Suc k) else last_index_from s p k)"

definition lastIndexOf :: "string \<Rightarrow> string \<Rightarrow> int \<Rightarrow> int" where
  "lastIndexOf s p fromIndex =
     (if length s < length p then - 1
      else last_index_from s p (min (nat fromIndex) (length s - length p)))"

text \<open>\<open>s.split(c)\<close> for a separator of one character: one piece more than separators.\<close>

fun split_char :: "char \<Rightarrow> string \<Rightarrow> string list" where
  "split_char sep [] = [[]]"
| "split_char sep (c # cs) =
     (if c = sep then [] # split_char sep cs
      else (case split_char sep cs of
              [] \<Rightarrow> [[c]]
            | piece # pieces \<Rightarrow> (c # piece) # pieces))"

section \<open>Regular expressions\<close>

text \<open>
  The patterns of the program are built from character classes, sequence, alternative and
  the greedy star. \<open>rmatch r s\<close> lists what is left of \<open>s\<close> after each way of matching
  \<open>r\<close> at its start, in the order a backtracking matcher tries them: the first
  alternative first, the longest repetition first. An iteration of the star that consumes
  nothing is not taken, as in ECMAScript.
\<close>

datatype regex = Eps | Cls "char \<Rightarrow> bool" | Seq regex regex | Alt regex regex | Star regex

fun rmatch :: "regex \<Rightarrow> string \<Rightarrow> string list" where
  "rmatch Eps s = [s]"
| "rmatch (Cls p) s = (case s of [] \<Rightarrow> [] | c # cs \<Rightarrow> if p c then [cs] else [])"
| "rmatch (Seq a b) s = concat (map (rmatch b) (rmatch a s))"
| "rmatch (Alt a b) s = rmatch a s @ rmatch b s"
| "rmatch (Star a) s =
     concat (map (rmatch (Star a)) (filter (\<lambda>r. length r < length s) (rmatch a s))) @ [s]"

definition Lit :: "char \<Rightarrow> regex" where
  "Lit c = Cls (\<lambda>x. x = c)"

definition Str :: "string \<Rightarrow> regex" where
  "Str s = foldr (\<lambda>c r. Seq (Lit c) r) s Eps"

definition Plus :: "regex \<Rightarrow> regex" where
  "Plus r = Seq r (Star r)"

definition Opt :: "regex \<Rightarrow> regex" where
  "Opt r = Alt r Eps"

fun Times :: "nat \<Rightarrow> regex \<Rightarrow> regex" where
  "Times 0 r = Eps"
| "Times (Suc n) r = Seq r (Times n r)"

text \<open>The match of \<open>r\<close> that starts exactly at the head of \<open>s\<close>: what it leaves.\<close>

definition exec_at :: "regex \<Rightarrow> string \<Rightarrow> string option" where
  "exec_at r s = (case rmatch r s of [] \<Rightarrow> None | rest # _ \<Rightarrow> Some rest)"

text \<open>
  \<open>s.match(r)\<close> without the global flag: the leftmost match, as (text before, matched
  text, text after).
\<close>

fun search :: "regex \<Rightarrow> string \<Rightarrow> (string \<times> string \<times> string) option" where
  "search r [] = (case exec_at r [] of None \<Rightarrow> None | Some rest \<Rightarrow> Some ([], [], []))"
| "search r (c # cs) =
     (case exec_at r (c # cs) of
        Some rest \<Rightarrow> Some ([], take (length (c # cs) - length rest) (c # cs), rest)
      | None \<Rightarrow> (case search r cs of None \<Rightarrow> None | Some (p, m, q) \<Rightarrow> Some (c # p, m, q)))"

section \<open>Double precision\<close>

text \<open>
  A number of the program is a double. The chunker multiplies a size by 0.7 and adds an
  index to the product; each of the two results is rounded to the nearest double, a tie
  to the one whose last bit is 0. All the numbers that occur there are multiples of
  \<open>2^-53\<close>, and an integer \<open>n\<close> stands here for the number \<open>n / 2^53\<close>. It is a
  double when it is written with at most 53 significant bits.
\<close>

function bit_length :: "int \<Rightarrow> nat" where
  "bit_length n = (if n \<le> 0 then 0 else Suc (bit_length (n div 2)))"
  by pat_completeness auto
termination
  by (relation "measure nat") auto

declare bit_length.simps [simp del]

text \<open>
  The nearest double: the \<open>k\<close> bits below the first 53 are dropped, and the rest goes up
  by one when they are more than half of \<open>2^k\<close>, or exactly half of it after an odd rest.
\<close>

definition nearest_double :: "int \<Rightarrow> int" where
  "nearest_double n =
     (if bit_length n \<le> 53 then n
      else
        (let k = bit_length n - 53;
             q = n div 2 ^ k;
             r = n mod 2 ^ k
         in if 2 * r > 2 ^ k \<or> (2 * r = 2 ^ k \<and> q mod 2 = 1)
            then (q + 1) * 2 ^ k else q * 2 ^ k))"

text \<open>The double \<open>0.7\<close> is \<open>6305039478318694 / 2^53\<close>, a little less than seven tenths.\<close>

definition seven_tenths :: int where
  "seven_tenths = 6305039478318694"

text \<open>
  \<open>maxChunkSize * 0.7\<close> for a size that is a whole number, and \<open>startIndex + x\<close>. An
  index into a string is below \<open>2^53\<close>, where a double holds every whole number; from
  there on, where no string reaches, the sum is left as it is.
\<close>

definition times_seven_tenths :: "nat \<Rightarrow> int" where
  "times_seven_tenths maxChunkSize = nearest_double (int maxChunkSize * seven_tenths)"

definition index_plus :: "int \<Rightarrow> int \<Rightarrow> int" where
  "index_plus startIndex x =
     (if startIndex < 2 ^ 53 then nearest_double (startIndex * 2 ^ 53 + x)
      else startIndex * 2 ^ 53 + x)"

section \<open>Chunker\<close>

text \<open>
  The body of the loop of \<open>chunkText\<close>: the end index of the chunk that starts at
  \<open>startIndex\<close>. The source compares \<open>breakPoint\<close> with the double
  \<open>startIndex + maxChunkSize * 0.7\<close>; both sides are written over \<open>2^53\<close>. The
  product is not always the seven tenths of the size: for a size of 90 it is
  \<open>62.99999999999999\<close>, and a full stop at index 63 is a break point.
\<close>

definition chunk_end :: "string \<Rightarrow> nat \<Rightarrow> int \<Rightarrow> int" where
  "chunk_end text maxChunkSize startIndex =
     (let endIndex = min (startIndex + int maxChunkSize) (int (length text)) in
      if endIndex < int (length text) then
        (let lastSentence = lastIndexOf text ''.'' endIndex;
             lastParagraph = lastIndexOf text [CHR 0x0A, CHR 0x0A] endIndex;
             breakPoint = max lastSentence lastParagraph
         in if breakPoint * 2 ^ 53 > index_plus startIndex (times_seven_tenths maxChunkSize)
            then breakPoint + 1 else endIndex)
      else endIndex)"

text \<open>The \<open>while\<close> loop; \<open>None\<close> is a loop that never ends.\<close>

partial_function (option) chunk_loop ::
  "string \<Rightarrow> nat \<Rightarrow> int \<Rightarrow> string list \<Rightarrow> string list option" where
  "chunk_loop text maxChunkSize startIndex chunks =
     (if startIndex < int (length text) then
        chunk_loop text maxChunkSize (chunk_end text maxChunkSize startIndex)
          (chunks @ [trim (substring text startIndex (chunk_end text maxChunkSize startIndex))])
      else Some chunks)"

declare chunk_loop.simps [code]

definition chunkText :: "string \<Rightarrow> nat \<Rightarrow> string list option" where
  "chunkText text maxChunkSize =
     (if length text \<le> maxChunkSize then Some [text]
      else chunk_loop text maxChunkSize 0 [])"

section \<open>Content-type classifier\<close>

text \<open>\<open>/\d{4}-\d{2}-\d{2}|\d{1,2}\/\d{1,2}\/\d{4}/\<close>\<close>

definition digit :: regex where
  "digit = Cls is_digit"

definition iso_date :: regex where
  "iso_date = Seq (Times 4 digit) (Seq (Lit CHR ''-'') (Seq (Times 2 digit)
                (Seq (Lit CHR ''-'') (Times 2 digit))))"

definition slash_date :: regex where
  "slash_date = Seq digit (Seq (Opt digit) (Seq (Lit CHR ''/'') (Seq digit (Seq (Opt digit)
                  (Seq (Lit CHR ''/'') (Times 4 digit))))))"

definition date_pattern :: regex where
  "date_pattern = Alt iso_date slash_date"

definition detectContentType :: "string \<Rightarrow> string" where
  "detectContentType text =
     (let lowerText = toLowerCase text in
      if str_includes lowerText ''abstract'' \<and> str_includes lowerText ''introduction''
         \<and> str_includes lowerText ''conclusion'' then ''Academic Paper''
      else if str_includes lowerText ''ingredients''
         \<and> (str_includes lowerText ''recipe'' \<or> str_includes lowerText ''instructions'')
        then ''Recipe''
      else if str_includes lowerText ''experience'' \<and> str_includes lowerText ''education''
         \<and> str_includes lowerText ''skills'' then ''Resume/CV''
      else if (str_includes lowerText ''email'' \<or> str_includes lowerText ''@'')
         \<and> str_includes lowerText ''password'' then ''Credentials List''
      else if search date_pattern lowerText \<noteq> None then ''Date-based Content''
      else if str_includes lowerText ''meeting''
         \<and> (str_includes lowerText ''agenda'' \<or> str_includes lowerText ''minutes'')
        then ''Meeting Notes''
      else if length (split_char (CHR 0x0A) text) > 10 \<and> str_includes text '',''
        then ''Structured Data''
      else if str_includes lowerText ''story'' \<or> str_includes lowerText ''chapter''
         \<or> length (split_char CHR ''.'' text) > 20 then ''Narrative/Story''
      else if str_includes lowerText ''product''
         \<and> (str_includes lowerText ''price'' \<or> str_includes lowerText ''feature'')
        then ''Product Information''
      else ''General Text'')"

text \<open>
  The classifier as section 4.1 of the specification words it: ten rules in a fixed order,
  each a predicate on the text with its label, the first predicate that holds giving the
  label. Keywords are looked up in the lower-cased text; a segment is a piece between
  full stops.
\<close>

definition mentions :: "string \<Rightarrow> string \<Rightarrow> bool" where
  "mentions text w = str_includes (toLowerCase text) w"

definition classifier_rules :: "((string \<Rightarrow> bool) \<times> string) list" where
  "classifier_rules =
     [(\<lambda>t. mentions t ''abstract'' \<and> mentions t ''introduction'' \<and> mentions t ''conclusion'',
       ''Academic Paper''),
      (\<lambda>t. mentions t ''ingredients'' \<and> (mentions t ''recipe'' \<or> mentions t ''instructions''),
       ''Recipe''),
      (\<lambda>t. mentions t ''experience'' \<and> mentions t ''education'' \<and> mentions t ''skills'',
       ''Resume/CV''),
      (\<lambda>t. (mentions t ''email'' \<or> mentions t ''@'') \<and> mentions t ''password'',
       ''Credentials List''),
      (\<lambda>t. search date_pattern (toLowerCase t) \<noteq> None, ''Date-based Content''),
      (\<lambda>t. mentions t ''meeting'' \<and> (mentions t ''agenda'' \<or> mentions t ''minutes''),
       ''Meeting Notes''),
      (\<lambda>t. 10 < length (split_char (CHR 0x0A) t) \<and> str_includes t '','', ''Structured Data''),
      (\<lambda>t. (mentions t ''story'' \<or> mentions t ''chapter'') \<or> 20 < length (split_char CHR ''.'' t),
       ''Narrative/Story''),
      (\<lambda>t. mentions t ''product'' \<and> (mentions t ''price'' \<or> mentions t ''feature''),
       ''Product Information''),
      (\<lambda>t. True, ''General Text'')]"

definition classify :: "string \<Rightarrow> string" where
  "classify text =
     (case find (\<lambda>rule. fst rule text) classifier_rules of
        Some rule \<Rightarrow> snd rule
      | None \<Rightarrow> ''General Text'')"

section \<open>Structured documents\<close>

text \<open>
  The values a structured document is made of: what \<open>JSON.parse\<close> returns, and the
  numbers the fallback analyzer computes. A finite number is an integer, in the range
  where a double holds it exactly and prints it in plain digits: of a number the program
  only asks whether it is zero, and its serialization. \<open>PInf\<close> and \<open>NaN\<close> are
  the results of a division by zero. An object is the list of its own properties in
  the order \<open>Object.keys\<close> enumerates them; \<open>undefined\<close> is the \<open>None\<close> of an
  \<open>option\<close>.
\<close>

datatype jsnum = Fin int | PInf | NaN

datatype jsval =
    VNull
  | VBool bool
  | VNum jsnum
  | VStr string
  | VArr "jsval list"
  | VObj "(string \<times> jsval) list"

fun decimal :: "nat \<Rightarrow> string" where
  "decimal n =
     (if n < 10 then [char_of (48 + n)] else decimal (n div 10) @ [char_of (48 + n mod 10)])"

definition number_text :: "int \<Rightarrow> string" where
  "number_text i = (if i < 0 then CHR ''-'' # decimal (nat (- i)) else decimal (nat i))"

text \<open>\<open>Array.isArray(v)\<close>; \<open>typeof v === 'object' && v !== null\<close>; the same and not an array.\<close>

fun is_array :: "jsval \<Rightarrow> bool" where
  "is_array (VArr xs) = True"
| "is_array v = False"

fun is_plain_object :: "jsval \<Rightarrow> bool" where
  "is_plain_object (VObj ps) = True"
| "is_plain_object v = False"

definition is_object :: "jsval \<Rightarrow> bool" where
  "is_object v = (is_array v \<or> is_plain_object v)"

fun elems :: "jsval \<Rightarrow> jsval list" where
  "elems (VArr xs) = xs"
| "elems v = []"

text \<open>\<open>!v\<close>: the values that count as false.\<close>

fun falsy :: "jsval option \<Rightarrow> bool" where
  "falsy None = True"
| "falsy (Some VNull) = True"
| "falsy (Some (VBool b)) = (b = False)"
| "falsy (Some (VNum (Fin i))) = (i = 0)"
| "falsy (Some (VNum PInf)) = False"
| "falsy (Some (VNum NaN)) = True"
| "falsy (Some (VStr s)) = (s = [])"
| "falsy (Some (VArr xs)) = False"
| "falsy (Some (VObj ps)) = False"

text \<open>
  The own enumerable properties of an object or an array, in enumeration order; the keys
  of an array are its indices.
\<close>

fun own_props :: "jsval \<Rightarrow> (string \<times> jsval) list" where
  "own_props (VObj ps) = ps"
| "own_props (VArr xs) = zip (map decimal [0..<length xs]) xs"
| "own_props v = []"

text \<open>
  A key is an array index when it is the decimal text of a number below \<open>2^32 - 1\<close>.
  An object enumerates its index keys first, in ascending order, then its other keys in
  the order they were added.
\<close>

definition index_value :: "string \<Rightarrow> int" where
  "index_value k = foldl (\<lambda>a c. 10 * a + (int (charCode c) - 48)) 0 k"

definition is_array_index :: "string \<Rightarrow> bool" where
  "is_array_index k =
     (k \<noteq> [] \<and> list_all is_digit k \<and> (k = ''0'' \<or> take 1 k \<noteq> ''0'')
      \<and> index_value k < 4294967295)"

fun insert_index :: "string \<Rightarrow> jsval \<Rightarrow> (string \<times> jsval) list \<Rightarrow> (string \<times> jsval) list" where
  "insert_index k v [] = [(k, v)]"
| "insert_index k v ((k', v') # ps) =
     (if is_array_index k' \<and> index_value k' < index_value k
      then (k', v') # insert_index k v ps
      else (k, v) # (k', v') # ps)"

fun update_prop :: "string \<Rightarrow> jsval \<Rightarrow> (string \<times> jsval) list \<Rightarrow> (string \<times> jsval) list" where
  "update_prop k v [] = []"
| "update_prop k v ((k', v') # ps) =
     (if k' = k then (k, v) # ps else (k', v') # update_prop k v ps)"

text \<open>\<open>obj[k] = v\<close> on the own properties of an object.\<close>

definition set_prop :: "string \<Rightarrow> jsval \<Rightarrow> (string \<times> jsval) list \<Rightarrow> (string \<times> jsval) list" where
  "set_prop k v ps =
     (case map_of ps k of
        Some old \<Rightarrow> update_prop k v ps
      | None \<Rightarrow> if is_array_index k then insert_index k v ps else ps @ [(k, v)])"

text \<open>
  What the embedding leaves out. The merge reads and writes its target by key. On an
  object every read and every write is described, except the merge into
  \<open>Object.prototype\<close>, which the key \<open>__proto__\<close> reaches: it changes what every
  object inherits. On an array the index keys and \<open>length\<close> are described as long as
  the array stays a list of elements; a write that leaves a gap in the array or gives it
  a named property, and a read of any other name, which gives a method where the
  engine's \<open>Array.prototype\<close> has one of that name, are not. A target that is neither
  an object nor an array does not occur.
\<close>

datatype beyond = Array_target | Prototype_target | Scalar_target

text \<open>
  \<open>obj[k]\<close> on a plain object: an own property; or what \<open>Object.prototype\<close> gives, a
  function for the names of its methods and the prototype itself for \<open>__proto__\<close>; or
  \<open>undefined\<close>.
\<close>

datatype lookup = Own jsval | Inherited_function | Prototype_object | Undefined

definition object_prototype_functions :: "string list" where
  "object_prototype_functions =
     [''constructor'', ''__defineGetter__'', ''__defineSetter__'', ''hasOwnProperty'',
      ''__lookupGetter__'', ''__lookupSetter__'', ''isPrototypeOf'', ''propertyIsEnumerable'',
      ''toString'', ''valueOf'', ''toLocaleString'']"

definition get_prop :: "(string \<times> jsval) list \<Rightarrow> string \<Rightarrow> lookup" where
  "get_prop ps k =
     (case map_of ps k of
        Some v \<Rightarrow> Own v
      | None \<Rightarrow>
          if k = ''__proto__'' then Prototype_object
          else if k \<in> set object_prototype_functions then Inherited_function
          else Undefined)"

text \<open>
  \<open>target[k]\<close> on a target of the merge. On an array: the element for an index below
  the length, \<open>undefined\<close> for an index from the length on, the length for \<open>length\<close>.
\<close>

fun get_key :: "jsval \<Rightarrow> string \<Rightarrow> beyond + lookup" where
  "get_key (VObj ps) k = Inr (get_prop ps k)"
| "get_key (VArr xs) k =
     (if is_array_index k then
        (if index_value k < int (length xs) then Inr (Own (xs ! nat (index_value k)))
         else Inr Undefined)
      else if k = ''length'' then Inr (Own (VNum (Fin (int (length xs)))))
      else Inl Array_target)"
| "get_key t k = Inl Scalar_target"

subsection \<open>Serialization\<close>

definition hex_digit :: "nat \<Rightarrow> char" where
  "hex_digit n = (if n < 10 then char_of (48 + n) else char_of (87 + n))"

definition escape_char :: "char \<Rightarrow> string" where
  "escape_char c =
     (if c = CHR 0x22 then [CHR 0x5C, CHR 0x22]
      else if c = CHR 0x5C then [CHR 0x5C, CHR 0x5C]
      else if c = CHR 0x08 then [CHR 0x5C, CHR ''b'']
      else if c = CHR 0x0C then [CHR 0x5C, CHR ''f'']
      else if c = CHR 0x0A then [CHR 0x5C, CHR ''n'']
      else if c = CHR 0x0D then [CHR 0x5C, CHR ''r'']
      else if c = CHR 0x09 then [CHR 0x5C, CHR ''t'']
      else if charCode c < 32
        then [CHR 0x5C, CHR ''u'', CHR ''0'', CHR ''0'',
              hex_digit (charCode c div 16), hex_digit (charCode c mod 16)]
      else [c])"

definition quote :: "string \<Rightarrow> string" where
  "quote s = CHR 0x22 # concat (map escape_char s) @ [CHR 0x22]"

fun join :: "string \<Rightarrow> string list \<Rightarrow> string" where
  "join sep [] = []"
| "join sep [x] = x"
| "join sep (x # y # ys) = x @ sep @ join sep (y # ys)"

text \<open>\<open>JSON.stringify(v)\<close>; a number that is not finite is written \<open>null\<close>.\<close>

fun JSON_stringify :: "jsval \<Rightarrow> string" where
  "JSON_stringify VNull = ''null''"
| "JSON_stringify (VBool b) = (if b then ''true'' else ''false'')"
| "JSON_stringify (VNum (Fin i)) = number_text i"
| "JSON_stringify (VNum PInf) = ''null''"
| "JSON_stringify (VNum NaN) = ''null''"
| "JSON_stringify (VStr s) = quote s"
| "JSON_stringify (VArr xs) = ''['' @ join '','' (map JSON_stringify xs) @ '']''"
| "JSON_stringify (VObj ps) =
     ''{'' @ join '','' (map (\<lambda>(k, v). quote k @ '':'' @ JSON_stringify v) ps) @ ''}''"

subsection \<open>Exceptions\<close>

text \<open>The exceptions of the engine that the program meets, with their messages.\<close>

datatype exn = TypeError string | RangeError string

fun message :: "exn \<Rightarrow> string" where
  "message (TypeError m) = m"
| "message (RangeError m) = m"

section \<open>Merge of two chunk results\<close>

text \<open>\<open>arr.findIndex(p)\<close>: the index of the first element that satisfies \<open>p\<close>, or -1.\<close>

fun findIndex :: "('a \<Rightarrow> bool) \<Rightarrow> 'a list \<Rightarrow> int" where
  "findIndex p [] = - 1"
| "findIndex p (x # xs) =
     (if p x then 0 else (let i = findIndex p xs in if i < 0 then - 1 else i + 1))"

text \<open>
  \<open>combined.filter((item, index, arr) =>
     arr.findIndex(i => JSON.stringify(i) === JSON.stringify(item)) === index)\<close>
\<close>

definition dedupe :: "jsval list \<Rightarrow> jsval list" where
  "dedupe combined =
     map snd (filter
       (\<lambda>(index, item).
          findIndex (\<lambda>i. JSON_stringify i = JSON_stringify item) combined = int index)
       (enumerate 0 combined))"

lemma own_props_size: "(k, v) \<in> set (own_props s) \<Longrightarrow> size v < size s"
proof (cases s)
  case (VObj ps)
  assume "(k, v) \<in> set (own_props s)"
  then have "(k, v) \<in> set ps" using VObj by simp
  then have "size v < Suc (size_list (size_prod (\<lambda>_. 0) size) ps)"
    by (induction ps) auto
  then show ?thesis using VObj by simp
next
  case (VArr xs)
  assume "(k, v) \<in> set (own_props s)"
  then have "v \<in> set xs" using VArr by (auto dest: set_zip_rightD)
  then have "size v < Suc (size_list size xs)"
    by (induction xs) auto
  then show ?thesis using VArr by simp
qed auto

text \<open>
  \<open>arr.length = v\<close>. The value is converted to a number; the assignment raises a
  \<open>RangeError\<close> unless the number is a whole number from 0 to \<open>2^32 - 1\<close>. A text
  converts to a number as a numeric literal between white space: to 0 when nothing else
  is there, to its value when it is made of digits, and to \<open>NaN\<close> when it has a
  character that no numeric literal has. The other texts, and the objects, whose
  conversion calls their methods, are left out.
\<close>

datatype new_length = Length int | Invalid_length | Unknown_length

definition numeral_char :: "char \<Rightarrow> bool" where
  "numeral_char c =
     (is_space c \<or> is_digit c \<or> c \<in> set ''+-.eExXoObBaAcCdDfFInity'')"

fun to_length :: "jsval \<Rightarrow> new_length" where
  "to_length VNull = Length 0"
| "to_length (VBool b) = Length (if b then 1 else 0)"
| "to_length (VNum (Fin i)) = (if 0 \<le> i \<and> i < 2 ^ 32 then Length i else Invalid_length)"
| "to_length (VNum PInf) = Invalid_length"
| "to_length (VNum NaN) = Invalid_length"
| "to_length (VStr s) =
     (if list_ex (\<lambda>c. \<not> numeral_char c) s then Invalid_length
      else if trim s = [] then Length 0
      else if list_all is_digit (trim s) then
        (if index_value (trim s) < 2 ^ 32 then Length (index_value (trim s))
         else Invalid_length)
      else Unknown_length)"
| "to_length (VArr xs) = Unknown_length"
| "to_length (VObj ps) = Unknown_length"

text \<open>
  How a merge ends when it does not return: with an exception, which leaves the target
  as the writes before it made it, or outside the embedding.
\<close>

datatype merge_stop = Raised exn jsval | Outside beyond

text \<open>
  \<open>target[k] = v\<close>. On an array, an index below the length replaces the element, the
  index that is the length appends one, and a greater index leaves a gap; a length not
  above the present one cuts the array.
\<close>

fun set_key :: "jsval \<Rightarrow> string \<Rightarrow> jsval \<Rightarrow> merge_stop + jsval" where
  "set_key (VObj ps) k v = Inr (VObj (set_prop k v ps))"
| "set_key (VArr xs) k v =
     (if is_array_index k then
        (if index_value k < int (length xs) then Inr (VArr (xs[nat (index_value k) := v]))
         else if index_value k = int (length xs) then Inr (VArr (xs @ [v]))
         else Inl (Outside Array_target))
      else if k = ''length'' then
        (case to_length v of
           Length n \<Rightarrow>
             if n \<le> int (length xs) then Inr (VArr (take (nat n) xs))
             else Inl (Outside Array_target)
         | Invalid_length \<Rightarrow> Inl (Raised (RangeError ''Invalid array length'') (VArr xs))
         | Unknown_length \<Rightarrow> Inl (Outside Array_target))
      else Inl (Outside Array_target))"
| "set_key t k v = Inl (Outside Scalar_target)"

text \<open>
  \<open>mergeAnalysisResults\<close>: the keys of the source in turn, each with the accumulated
  target. The second branch takes every pair of values of type \<open>object\<close>, an array
  and an object as well; the nested call changes the value of the target in place, which
  is written back here, also when the call raises.
\<close>

function mergeAnalysisResults :: "jsval \<Rightarrow> jsval \<Rightarrow> merge_stop + jsval" where
  "mergeAnalysisResults target source =
     fold (\<lambda>(key, sv) acc.
        case acc of
          Inl stop \<Rightarrow> Inl stop
        | Inr t \<Rightarrow>
            (case get_key t key of
               Inl b \<Rightarrow> Inl (Outside b)
             | Inr (Own tv) \<Rightarrow>
                 if is_array sv \<and> is_array tv
                   then set_key t key (VArr (dedupe (elems tv @ elems sv)))
                 else if is_object sv \<and> is_object tv
                   then (case mergeAnalysisResults tv sv of
                           Inr tv' \<Rightarrow> set_key t key tv'
                         | Inl (Raised err tv') \<Rightarrow>
                             (case set_key t key tv' of
                                Inr t' \<Rightarrow> Inl (Raised err t')
                              | Inl stop \<Rightarrow> Inl stop)
                         | Inl (Outside b) \<Rightarrow> Inl (Outside b))
                 else if falsy (Some tv) then set_key t key sv
                 else Inr t
             | Inr Undefined \<Rightarrow> set_key t key sv
             | Inr Inherited_function \<Rightarrow> Inr t
             | Inr Prototype_object \<Rightarrow>
                 if is_object sv then Inl (Outside Prototype_target) else Inr t))
       (own_props source) (Inr target)"
  by pat_completeness auto

termination mergeAnalysisResults
  by (relation "measure (\<lambda>(t, s). size s)") (auto dest: own_props_size)

declare mergeAnalysisResults.simps [simp del]

text \<open>The step of the merge for one key of the source, named for the proofs.\<close>

definition merge_key :: "string \<times> jsval \<Rightarrow> merge_stop + jsval \<Rightarrow> merge_stop + jsval" where
  "merge_key = (\<lambda>(key, sv) acc.
        case acc of
          Inl stop \<Rightarrow> Inl stop
        | Inr t \<Rightarrow>
            (case get_key t key of
               Inl b \<Rightarrow> Inl (Outside b)
             | Inr (Own tv) \<Rightarrow>
                 if is_array sv \<and> is_array tv
                   then set_key t key (VArr (dedupe (elems tv @ elems sv)))
                 else if is_object sv \<and> is_object tv
                   then (case mergeAnalysisResults tv sv of
                           Inr tv' \<Rightarrow> set_key t key tv'
                         | Inl (Raised err tv') \<Rightarrow>
                             (case set_key t key tv' of
                                Inr t' \<Rightarrow> Inl (Raised err t')
                              | Inl stop \<Rightarrow> Inl stop)
                         | Inl (Outside b) \<Rightarrow> Inl (Outside b))
                 else if falsy (Some tv) then set_key t key sv
                 else Inr t
             | Inr Undefined \<Rightarrow> set_key t key sv
             | Inr Inherited_function \<Rightarrow> Inr t
             | Inr Prototype_object \<Rightarrow>
                 if is_object sv then Inl (Outside Prototype_target) else Inr t))"

section \<open>Global matching, replacing and splitting\<close>

text \<open>
  \<open>s.match(r)\<close> with the global flag: the matches from left to right, none overlapping
  another; after an empty match the scan moves on by one character.
\<close>

fun match_all :: "regex \<Rightarrow> string \<Rightarrow> string list" where
  "match_all r [] = (case exec_at r [] of None \<Rightarrow> [] | Some rest \<Rightarrow> [[]])"
| "match_all r (c # cs) =
     (case exec_at r (c # cs) of
        None \<Rightarrow> match_all r cs
      | Some rest \<Rightarrow>
          if length rest < length (c # cs)
          then take (length (c # cs) - length rest) (c # cs) # match_all r rest
          else [] # match_all r cs)"

text \<open>\<open>s.replace(r, rep)\<close> with the global flag.\<close>

fun replace_all :: "regex \<Rightarrow> string \<Rightarrow> string \<Rightarrow> string" where
  "replace_all r rep [] = (case exec_at r [] of None \<Rightarrow> [] | Some rest \<Rightarrow> rep)"
| "replace_all r rep (c # cs) =
     (case exec_at r (c # cs) of
        None \<Rightarrow> c # replace_all r rep cs
      | Some rest \<Rightarrow>
          if length rest < length (c # cs) then rep @ replace_all r rep rest
          else rep @ c # replace_all r rep cs)"

text \<open>
  \<open>s.split(r)\<close>. \<open>split_from r piece s\<close> scans \<open>s\<close> with \<open>piece\<close> the text since the
  last separator. A match that is empty does not end an empty piece.
\<close>

fun split_from :: "regex \<Rightarrow> string \<Rightarrow> string \<Rightarrow> string list" where
  "split_from r piece [] = [piece]"
| "split_from r piece (c # cs) =
     (case exec_at r (c # cs) of
        None \<Rightarrow> split_from r (piece @ [c]) cs
      | Some rest \<Rightarrow>
          if length rest < length (c # cs) then piece # split_from r [] rest
          else if piece = [] then split_from r [c] cs
          else piece # split_from r [c] cs)"

definition split_re :: "regex \<Rightarrow> string \<Rightarrow> string list" where
  "split_re r s =
     (if s = [] then (case exec_at r [] of None \<Rightarrow> [[]] | Some rest \<Rightarrow> [])
      else split_from r [] s)"

section \<open>Fallback analyzer\<close>

text \<open>\<open>/\s+/\<close>, \<open>/[.!?]+/\<close> and \<open>/\n\s*\n/\<close>\<close>

definition spaces :: regex where
  "spaces = Plus (Cls is_space)"

definition sentence_ends :: regex where
  "sentence_ends = Plus (Cls (\<lambda>c. c \<in> set ''.!?''))"

definition blank_line :: regex where
  "blank_line = Seq (Lit (CHR 0x0A)) (Seq (Star (Cls is_space)) (Lit (CHR 0x0A)))"

text \<open>\<open>/[\w.-]+@[\w.-]+\.\w+/g\<close>\<close>

definition name_char :: regex where
  "name_char = Cls (\<lambda>c. is_word c \<or> c = CHR ''.'' \<or> c = CHR ''-'')"

definition email_pattern :: regex where
  "email_pattern =
     Seq (Plus name_char) (Seq (Lit CHR ''@'') (Seq (Plus name_char)
       (Seq (Lit CHR ''.'') (Plus (Cls is_word)))))"

text \<open>
  \<open>/https?:\/\/[\w.-]+\.[a-z]{2,}[\w\/.-]*/gi\<close>; with the flag \<open>i\<close> a letter of the
  pattern matches in either case.
\<close>

definition letter_ci :: "char \<Rightarrow> regex" where
  "letter_ci c = Cls (\<lambda>x. lower_char x = c)"

definition any_letter :: regex where
  "any_letter = Cls (\<lambda>c. is_lower c \<or> is_upper c)"

definition path_char :: regex where
  "path_char = Cls (\<lambda>c. is_word c \<or> c = CHR ''/'' \<or> c = CHR ''.'' \<or> c = CHR ''-'')"

definition url_pattern :: regex where
  "url_pattern =
     Seq (letter_ci CHR ''h'') (Seq (letter_ci CHR ''t'') (Seq (letter_ci CHR ''t'')
       (Seq (letter_ci CHR ''p'') (Seq (Opt (letter_ci CHR ''s'')) (Seq (Str ''://'')
         (Seq (Plus name_char) (Seq (Lit CHR ''.'')
           (Seq (Times 2 any_letter) (Seq (Star any_letter) (Star path_char))))))))))"

text \<open>\<open>/\d{1,2}\/\d{1,2}\/\d{4}|\d{4}-\d{2}-\d{2}/g\<close> and \<open>/\d+(?:,\d{3})*(?:\.\d+)?/g\<close>\<close>

definition date_pattern_fallback :: regex where
  "date_pattern_fallback = Alt slash_date iso_date"

definition number_pattern :: regex where
  "number_pattern =
     Seq (Plus digit) (Seq (Star (Seq (Lit CHR '','') (Times 3 digit)))
       (Opt (Seq (Lit CHR ''.'') (Plus digit))))"

text \<open>\<open>/[^\w]/g\<close>\<close>

definition non_word :: regex where
  "non_word = Cls (\<lambda>c. \<not> is_word c)"

text \<open>
  \<open>(wordFreq[cleanWord] || 0) + 1\<close> on a count that is a number, and on one that is a
  string, to which \<open>+\<close> appends the text of 1.
\<close>

fun plus_one :: "jsval \<Rightarrow> jsval" where
  "plus_one (VNum (Fin n)) = VNum (Fin (n + 1))"
| "plus_one (VStr s) = VStr (s @ ''1'')"
| "plus_one v = v"

text \<open>
  One step of the loop over the words. \<open>wordFreq\<close> is an object literal, so the word
  \<open>constructor\<close> finds the function \<open>Object\<close> on its first reading, and
  \<open>__proto__\<close> finds the prototype and is never stored.
\<close>

definition count_word :: "(string \<times> jsval) list \<Rightarrow> string \<Rightarrow> (string \<times> jsval) list" where
  "count_word wordFreq word =
     (let cleanWord = replace_all non_word [] (toLowerCase word) in
      if length cleanWord > 3 then
        (case get_prop wordFreq cleanWord of
           Own v \<Rightarrow>
             set_prop cleanWord (if falsy (Some v) then VNum (Fin 1) else plus_one v) wordFreq
         | Undefined \<Rightarrow> set_prop cleanWord (VNum (Fin 1)) wordFreq
         | Inherited_function \<Rightarrow>
             set_prop cleanWord (VStr ''function Object() { [native code] }1'') wordFreq
         | Prototype_object \<Rightarrow> wordFreq)
      else wordFreq)"

text \<open>
  \<open>sort(([,a], [,b]) => b - a)\<close>: the difference of two counts, zero when a count is not
  a number. The sort is stable. (When a count is a string the comparison is not an order,
  and the result of the sort is the engine's choice; the insertion sort below is one.)
\<close>

fun count_difference :: "jsval \<Rightarrow> jsval \<Rightarrow> int" where
  "count_difference (VNum (Fin b)) (VNum (Fin a)) = b - a"
| "count_difference b a = 0"

fun insert_entry :: "string \<times> jsval \<Rightarrow> (string \<times> jsval) list \<Rightarrow> (string \<times> jsval) list" where
  "insert_entry x [] = [x]"
| "insert_entry x (y # ys) =
     (if count_difference (snd y) (snd x) > 0 then y # insert_entry x ys else x # y # ys)"

definition sort_entries :: "(string \<times> jsval) list \<Rightarrow> (string \<times> jsval) list" where
  "sort_entries xs = foldr insert_entry xs []"

text \<open>\<open>Math.round(words / sentences)\<close> on two counts: a division by zero gives a value
  that is not finite.\<close>

definition round_quotient :: "nat \<Rightarrow> nat \<Rightarrow> jsnum" where
  "round_quotient w s =
     (if s = 0 then (if w = 0 then NaN else PInf)
      else Fin ((2 * int w + int s) div (2 * int s)))"

definition count_of :: "nat \<Rightarrow> jsval" where
  "count_of n = VNum (Fin (int n))"

definition words_of :: "string \<Rightarrow> string list" where
  "words_of text = filter (\<lambda>w. length w > 0) (split_re spaces text)"

definition sentences_of :: "string \<Rightarrow> string list" where
  "sentences_of text = filter (\<lambda>s. length (trim s) > 0) (split_re sentence_ends text)"

definition paragraphs_of :: "string \<Rightarrow> string list" where
  "paragraphs_of text = filter (\<lambda>p. length (trim p) > 0) (split_re blank_line text)"

definition topWords :: "string list \<Rightarrow> jsval list" where
  "topWords words =
     map (\<lambda>(word, count). VObj [(''word'', VStr word), (''count'', count)])
       (take 10 (sort_entries (foldl count_word [] words)))"

text \<open>
  The timestamp \<open>new Date().toISOString()\<close> is the parameter \<open>now\<close>;
  \<open>Math.ceil(words / 200)\<close> is computed over the integers.
\<close>

definition fallbackAnalysis :: "string \<Rightarrow> string \<Rightarrow> string \<Rightarrow> jsval" where
  "fallbackAnalysis now text contentType =
     (let words = words_of text;
          sentences = sentences_of text;
          paragraphs = paragraphs_of text;
          emails = match_all email_pattern text;
          urls = match_all url_pattern text;
          dates = match_all date_pattern_fallback text;
          numbers = match_all number_pattern text
      in VObj
        [(''document_type'', VStr contentType),
         (''content_analysis'', VObj
            [(''word_count'', count_of (length words)),
             (''sentence_count'', count_of (length sentences)),
             (''paragraph_count'', count_of (length paragraphs)),
             (''average_sentence_length'',
                VNum (round_quotient (length words) (length sentences))),
             (''reading_time_minutes'', count_of ((length words + 199) div 200))]),
         (''extracted_entities'', VObj
            [(''emails'', VArr (map VStr emails)),
             (''urls'', VArr (map VStr urls)),
             (''dates'', VArr (map VStr dates)),
             (''numbers'', VArr (map VStr (take 10 numbers)))]),
         (''key_terms'', VArr (topWords words)),
         (''structure'', VObj
            [(''paragraphs'', VArr (map
                (\<lambda>(index, para). VObj
                   [(''index'', count_of (index + 1)),
                    (''word_count'', count_of (length (split_re spaces para))),
                    (''preview'', VStr (substring para 0 100
                        @ (if length para > 100 then ''...'' else [])))])
                (enumerate 0 paragraphs)))]),
         (''metadata'', VObj
            [(''analysis_method'', VStr ''fallback_rule_based''),
             (''processing_timestamp'', VStr now),
             (''content_type_detected'', VStr contentType)])])"

section \<open>External service\<close>

text \<open>
  One request to the text-generation service: the model and the body that
  \<open>callCloudflareAI\<close> posts. The answer is either an exception (no credentials, a
  network failure, a status that is not a success) or a body, of which the program reads
  \<open>response.result?.response\<close> only.
\<close>

record ai_request =
  model :: string
  system_content :: string
  user_content :: string
  max_tokens :: nat
  temperature :: rat

datatype ai_reply = Throws | Response "jsval option"

text \<open>
  What a run depends on besides its input: the two credentials of the process
  environment, the service (its answer to the \<open>n\<close>-th request of the run), the built-in
  \<open>JSON.parse\<close> (\<open>None\<close> when it raises \<open>SyntaxError\<close>) and the clock.
\<close>

record env =
  CLOUDFLARE_ACCOUNT_ID :: "string option"
  CLOUDFLARE_API_TOKEN :: "string option"
  service :: "nat \<Rightarrow> ai_request \<Rightarrow> ai_reply"
  JSON_parse :: "string \<Rightarrow> jsval option"
  clock :: string

definition unset :: "string option \<Rightarrow> bool" where
  "unset v = (case v of None \<Rightarrow> True | Some s \<Rightarrow> s = [])"

definition callCloudflareAI :: "env \<Rightarrow> nat \<Rightarrow> ai_request \<Rightarrow> ai_reply" where
  "callCloudflareAI e n inputs =
     (if unset (CLOUDFLARE_ACCOUNT_ID e) \<or> unset (CLOUDFLARE_API_TOKEN e) then Throws
      else service e n inputs)"

definition llama :: string where
  "llama = ''@cf/meta/llama-3.1-8b-instruct''"

section \<open>Summarizer\<close>

definition summary_request :: "string \<Rightarrow> ai_request" where
  "summary_request truncatedText =
     \<lparr>model = llama,
      system_content = ''You are a skilled summarizer. Create a concise, informative summary of the given text. Focus on the main points and key information.'',
      user_content = ''Please provide a brief summary (2-3 sentences) of the following text:''
        @ [CHR 0x0A, CHR 0x0A] @ truncatedText,
      max_tokens = 200,
      temperature = 3 / 10\<rparr>"

text \<open>
  The summary is the first request of a run. An answer that is not a string has no
  \<open>trim\<close>; the call raises and the handler returns its placeholder.
\<close>

definition generateSummary :: "env \<Rightarrow> string \<Rightarrow> string" where
  "generateSummary e text =
     (case callCloudflareAI e 0 (summary_request (substring text 0 2000)) of
        Throws \<Rightarrow> ''Unable to generate summary''
      | Response r \<Rightarrow>
          if falsy r then ''Summary generation failed''
          else (case r of
                  Some (VStr response) \<Rightarrow> trim response
                | _ \<Rightarrow> ''Unable to generate summary''))"

section \<open>Structured extractor\<close>

definition extraction_prompt :: "string \<Rightarrow> string \<Rightarrow> string" where
  "extraction_prompt contentType chunk =
     ''Analyze and organize this '' @ contentType
     @ '' content into a structured JSON format. Extract key information, entities, relationships, and organize data logically. Focus on making the content more readable and structured.''
     @ [CHR 0x0A, CHR 0x0A] @ ''Rules:''
     @ [CHR 0x0A] @ ''1. Return only valid JSON without markdown formatting''
     @ [CHR 0x0A] @ ''2. Create meaningful categories and subcategories''
     @ [CHR 0x0A] @ ''3. Extract entities like names, dates, locations, etc.''
     @ [CHR 0x0A] @ ''4. Identify patterns and relationships''
     @ [CHR 0x0A] @ ''5. Organize information hierarchically''
     @ [CHR 0x0A] @ ''6. Include metadata where relevant''
     @ [CHR 0x0A, CHR 0x0A] @ ''Content to analyze:''
     @ [CHR 0x0A] @ chunk"

definition extraction_request :: "string \<Rightarrow> string \<Rightarrow> ai_request" where
  "extraction_request contentType chunk =
     \<lparr>model = llama,
      system_content = ''You are an expert data analyst and organizer. Transform unstructured text into well-organized, structured JSON data. Focus on clarity, usefulness, and logical organization.'',
      user_content = extraction_prompt contentType chunk,
      max_tokens = 1500,
      temperature = 2 / 10\<rparr>"

text \<open>
  The two patterns that strip the marks of a fenced code block, three grave accents with
  or without the word \<open>json\<close>, and the pattern \<open>/\{[\s\S]*\}/\<close> of the recovery.
\<close>

definition fence_mark :: regex where
  "fence_mark = Str (replicate 3 (CHR 0x60))"

definition json_fence :: regex where
  "json_fence =
     Alt (Seq fence_mark (Seq (Str ''json'') (Opt (Lit (CHR 0x0A)))))
         (Seq (Opt (Lit (CHR 0x0A))) fence_mark)"

definition plain_fence :: regex where
  "plain_fence =
     Alt (Seq fence_mark (Opt (Lit (CHR 0x0A)))) (Seq (Opt (Lit (CHR 0x0A))) fence_mark)"

definition cleanJson :: "string \<Rightarrow> string" where
  "cleanJson response = trim (replace_all plain_fence [] (replace_all json_fence [] response))"

definition braces :: regex where
  "braces = Seq (Lit CHR ''{'') (Seq (Star (Cls (\<lambda>c. True))) (Lit CHR ''}''))"

text \<open>
  \<open>JSON.parse\<close> on a text that starts with a brace returns an object or raises; the
  recovery parses such a text only.
\<close>

definition parse_object :: "env \<Rightarrow> string \<Rightarrow> jsval option" where
  "parse_object e s =
     (case JSON_parse e s of Some (VObj ps) \<Rightarrow> Some (VObj ps) | _ \<Rightarrow> None)"

text \<open>
  The \<open>for\<close> loop over the chunks. It ends with the accumulator, or with an exception
  that leaves the loop for the outer handler, or where the merge leaves the embedding.
  Chunk \<open>i\<close> is the \<open>i\<close>-th request of the extractor. An exception of the merge is
  caught by the handler of the parse, like a text that does not parse: the accumulator
  stays as the merge left it, and the recovery, which stores its result for the first
  chunk only, stores nothing.
\<close>

datatype loop_end = Finished jsval | Thrown | Left beyond

function extraction_loop :: "env \<Rightarrow> string \<Rightarrow> string list \<Rightarrow> nat \<Rightarrow> jsval \<Rightarrow> loop_end" where
  "extraction_loop e contentType chunks i combinedAnalysis =
     (if i < min (length chunks) 2 then
        (case callCloudflareAI e i (extraction_request contentType (chunks ! i)) of
           Throws \<Rightarrow> Thrown
         | Response r \<Rightarrow>
             if falsy r then extraction_loop e contentType chunks (i + 1) combinedAnalysis
             else
               (case r of
                  Some (VStr response) \<Rightarrow>
                    (case JSON_parse e (cleanJson response) of
                       Some parsed \<Rightarrow>
                         if is_object parsed then
                           (if i = 0 then extraction_loop e contentType chunks (i + 1) parsed
                            else
                              (case mergeAnalysisResults combinedAnalysis parsed of
                                 Inr merged \<Rightarrow>
                                   extraction_loop e contentType chunks (i + 1) merged
                               | Inl (Raised err partly) \<Rightarrow>
                                   extraction_loop e contentType chunks (i + 1) partly
                               | Inl (Outside b) \<Rightarrow> Left b))
                         else extraction_loop e contentType chunks (i + 1) combinedAnalysis
                     | None \<Rightarrow>
                         (case search braces response of
                            Some (before, jsonMatch, after) \<Rightarrow>
                              (case parse_object e jsonMatch of
                                 Some parsed \<Rightarrow>
                                   if i = 0
                                   then extraction_loop e contentType chunks (i + 1) parsed
                                   else extraction_loop e contentType chunks (i + 1)
                                          combinedAnalysis
                               | None \<Rightarrow>
                                   extraction_loop e contentType chunks (i + 1) combinedAnalysis)
                          | None \<Rightarrow>
                              extraction_loop e contentType chunks (i + 1) combinedAnalysis))
                | _ \<Rightarrow> Thrown))
      else Finished combinedAnalysis)"
  by pat_completeness auto
termination
  by (relation "measure (\<lambda>(e, contentType, chunks, i, combinedAnalysis).
        min (length chunks) 2 - i)") (auto simp: min_def)

declare extraction_loop.simps [simp del]

text \<open>
  The body of the extraction loop for one chunk, with the rest of the loop as the
  parameter \<open>continue\<close>; named for the proofs.
\<close>

definition loop_body ::
  "env \<Rightarrow> string \<Rightarrow> string \<Rightarrow> nat \<Rightarrow> jsval \<Rightarrow> (jsval \<Rightarrow> loop_end) \<Rightarrow> loop_end" where
  "loop_body e contentType chunk i combinedAnalysis continue =
     (case callCloudflareAI e i (extraction_request contentType chunk) of
        Throws \<Rightarrow> Thrown
      | Response r \<Rightarrow>
          if falsy r then continue combinedAnalysis
          else
            (case r of
               Some (VStr response) \<Rightarrow>
                 (case JSON_parse e (cleanJson response) of
                    Some parsed \<Rightarrow>
                      if is_object parsed then
                        (if i = 0 then continue parsed
                         else
                           (case mergeAnalysisResults combinedAnalysis parsed of
                              Inr merged \<Rightarrow> continue merged
                            | Inl (Raised err partly) \<Rightarrow> continue partly
                            | Inl (Outside b) \<Rightarrow> Left b))
                      else continue combinedAnalysis
                  | None \<Rightarrow>
                      (case search braces response of
                         Some (before, jsonMatch, after) \<Rightarrow>
                           (case parse_object e jsonMatch of
                              Some parsed \<Rightarrow>
                                if i = 0 then continue parsed else continue combinedAnalysis
                            | None \<Rightarrow> continue combinedAnalysis)
                       | None \<Rightarrow> continue combinedAnalysis))
             | _ \<Rightarrow> Thrown))"

text \<open>
  The extractor. \<open>Diverges\<close> is a chunker that does not return, \<open>Beyond\<close> a merge that
  left the embedding.
\<close>

datatype 'a run = Returns 'a | Beyond beyond | Diverges

definition analyzeTextWithAI :: "env \<Rightarrow> string \<Rightarrow> string \<Rightarrow> jsval run" where
  "analyzeTextWithAI e text contentType =
     (case chunkText text 3500 of
        None \<Rightarrow> Diverges
      | Some chunks \<Rightarrow>
          (case extraction_loop e contentType chunks 0 (VObj []) of
             Finished combinedAnalysis \<Rightarrow>
               if length (own_props combinedAnalysis) > 0 then Returns combinedAnalysis
               else Returns (fallbackAnalysis (clock e) text contentType)
           | Thrown \<Rightarrow> Returns (fallbackAnalysis (clock e) text contentType)
           | Left b \<Rightarrow> Beyond b))"

section \<open>Confidence scorer\<close>

text \<open>\<open>v.name\<close> for a name that no prototype defines: an own property of an object.\<close>

fun member :: "jsval \<Rightarrow> string \<Rightarrow> jsval option" where
  "member (VObj ps) name = map_of ps name"
| "member v name = None"

text \<open>
  \<open>data.metadata?.analysis_method?.includes('fallback')\<close>. The chain stops at a
  value that is \<open>null\<close> or \<open>undefined\<close>. A string and an array have a method
  \<open>includes\<close>; on any other value the call raises (the text is V8's).
\<close>

definition marked_fallback :: "jsval \<Rightarrow> exn + bool" where
  "marked_fallback data =
     (case member data ''metadata'' of
        None \<Rightarrow> Inr False
      | Some VNull \<Rightarrow> Inr False
      | Some metadata \<Rightarrow>
          (case member metadata ''analysis_method'' of
             None \<Rightarrow> Inr False
           | Some VNull \<Rightarrow> Inr False
           | Some (VStr s) \<Rightarrow> Inr (str_includes s ''fallback'')
           | Some (VArr xs) \<Rightarrow> Inr (VStr ''fallback'' \<in> set xs)
           | Some v \<Rightarrow>
               Inl (TypeError ''data.metadata?.analysis_method?.includes is not a function'')))"

text \<open>
  The score is a sum of doubles, each sum rounded to the nearest double. The numbers are
  written over \<open>2^56\<close> here: 0.5 is \<open>2^55\<close>, the double 0.1 is 7205759403792794
  and 0.2 twice that, the double 0.3 is 21617278211378380 and 0.95 is 68454714336031536.
  The value returned is the number the double stands for: \<open>0.5 + 0.1 + 0.1 + 0.1\<close> is
  \<open>0.7999999999999999\<close>. The extraction ratio
  \<open>JSON.stringify(data).length / textLength\<close> is compared with 0.1 and 0.3 by cross
  multiplication, which also covers the division by zero; for lengths that a string
  has, the rounding of the quotient does not change the comparison.
\<close>

definition tenth :: int where
  "tenth = 7205759403792794"

definition add_double :: "int \<Rightarrow> int \<Rightarrow> int" where
  "add_double a b = nearest_double (a + b)"

text \<open>\<open>if (test) confidence += x\<close>\<close>

definition add_when :: "bool \<Rightarrow> int \<Rightarrow> int \<Rightarrow> int" where
  "add_when test x confidence = (if test then add_double confidence x else confidence)"

definition calculateConfidence :: "jsval \<Rightarrow> string \<Rightarrow> exn + rat" where
  "calculateConfidence data originalText =
     (let fieldCount = length (own_props data);
          hasArrays = list_ex is_array (map snd (own_props data));
          hasObjects = list_ex is_plain_object (map snd (own_props data));
          textLength = length originalText;
          serialized = length (JSON_stringify data);
          base = 2 ^ 55;
          fields = add_when (fieldCount > 5) tenth base;
          manyFields = add_when (fieldCount > 10) tenth fields;
          arrays = add_when hasArrays tenth manyFields;
          objects = add_when hasObjects tenth arrays;
          good = add_when (10 * serialized > textLength) tenth objects;
          excellent = add_when (10 * serialized > 3 * textLength) tenth good
      in case marked_fallback data of
           Inl err \<Rightarrow> Inl err
         | Inr marked \<Rightarrow>
             Inr (of_int (min 68454714336031536 (max 21617278211378380
                    (add_when (\<not> marked) (2 * tenth) excellent)))
                  / 2 ^ 56))"

section \<open>Field extractor\<close>

function extractFields :: "jsval \<Rightarrow> string \<Rightarrow> string list" where
  "extractFields data prefix =
     concat (map
       (\<lambda>(key, v).
          (if prefix \<noteq> [] then prefix @ ''.'' @ key else key)
          # (if is_plain_object v \<and> length (split_char CHR ''.'' prefix) < 3
             then extractFields v (if prefix \<noteq> [] then prefix @ ''.'' @ key else key)
             else []))
       (own_props data))"
  by pat_completeness auto
termination
  by (relation "measure (\<lambda>(data, prefix). size data)") (auto dest: own_props_size)

declare extractFields.simps [simp del]

section \<open>Pipeline\<close>

record analysis =
  data :: jsval
  field_list :: "string list"
  inputType :: string
  confidence :: rat
  summary :: string
  wordCount :: nat

datatype AnalysisResult = Failure string | Success analysis

text \<open>
  \<open>analyzeText\<close>. The request for the summary is the first of the run, so the extractor
  sees the service from the second request on.
\<close>

definition analyzeText :: "env \<Rightarrow> string \<Rightarrow> AnalysisResult run" where
  "analyzeText e inputText =
     (if trim inputText = [] then Returns (Failure ''No text provided for analysis'')
      else if length (words_of inputText) < 5
        then Returns (Failure ''Text is too short for meaningful analysis'')
      else if length inputText > 50000
        then Returns (Failure ''Text is too long. Please limit to 50,000 characters or less.'')
      else
        (let contentType = detectContentType inputText;
             summaryText = generateSummary e inputText
         in case analyzeTextWithAI (e\<lparr>service := \<lambda>n. service e (Suc n)\<rparr>) inputText contentType of
              Diverges \<Rightarrow> Diverges
            | Beyond b \<Rightarrow> Beyond b
            | Returns structuredData \<Rightarrow>
                (case calculateConfidence structuredData inputText of
                   Inl err \<Rightarrow> Returns (Failure (''Analysis failed: '' @ message err))
                 | Inr score \<Rightarrow>
                     Returns (Success
                       \<lparr>data = structuredData,
                        field_list = extractFields structuredData [],
                        inputType = contentType,
                        confidence = score,
                        summary = summaryText,
                        wordCount = length (words_of inputText)\<rparr>))))"

section \<open>Sample environments and paths\<close>

text \<open>The value at a path of keys in a document.\<close>

fun at_path :: "jsval \<Rightarrow> string list \<Rightarrow> jsval option" where
  "at_path v [] = Some v"
| "at_path v (k # ks) = (case member v k of None \<Rightarrow> None | Some w \<Rightarrow> at_path w ks)"

text \<open>A process without credentials: every call of the service raises.\<close>

definition no_credentials :: env where
  "no_credentials =
     \<lparr>CLOUDFLARE_ACCOUNT_ID = None,
      CLOUDFLARE_API_TOKEN = None,
      service = (\<lambda>n request. Throws),
      JSON_parse = (\<lambda>s. None),
      clock = ''2025-01-01T00:00:00.000Z''\<rparr>"

text \<open>
  \<open>JSON.parse\<close> on the two texts \<open>{"a":1}\<close> and \<open>{"b":2}\<close>; on the other texts of
  the samples below it raises, as it does on prose.
\<close>

definition sample_parse :: "string \<Rightarrow> jsval option" where
  "sample_parse s =
     (if s = ''{\"a\":1}'' then Some (VObj [(''a'', VNum (Fin 1))])
      else if s = ''{\"b\":2}'' then Some (VObj [(''b'', VNum (Fin 2))])
      else None)"

text \<open>
  Two services that answer the first chunk with \<open>{"a":1}\<close>. The first answers the
  second chunk with \<open>{"b":2}\<close>; the second wraps the same document in a sentence.
\<close>

definition strict_service :: env where
  "strict_service =
     \<lparr>CLOUDFLARE_ACCOUNT_ID = Some ''account'',
      CLOUDFLARE_API_TOKEN = Some ''token'',
      service = (\<lambda>n request.
        if n = 0 then Response (Some (VStr ''{\"a\":1}''))
        else Response (Some (VStr ''{\"b\":2}''))),
      JSON_parse = sample_parse,
      clock = ''2025-01-01T00:00:00.000Z''\<rparr>"

definition wrapping_service :: env where
  "wrapping_service =
     \<lparr>CLOUDFLARE_ACCOUNT_ID = Some ''account'',
      CLOUDFLARE_API_TOKEN = Some ''token'',
      service = (\<lambda>n request.
        if n = 0 then Response (Some (VStr ''{\"a\":1}''))
        else Response (Some (VStr ''Here is the JSON: {\"b\":2} Done.''))),
      JSON_parse = sample_parse,
      clock = ''2025-01-01T00:00:00.000Z''\<rparr>"

text \<open>
  A service whose two answers hold \<open>dimensions\<close>, an empty array in the first and an
  object with a \<open>length\<close> in the second, and an array of \<open>tags\<close> each;
  \<open>JSON.parse\<close> on the two texts.
\<close>

definition dimensions_parse :: "string \<Rightarrow> jsval option" where
  "dimensions_parse s =
     (if s = ''{\"dimensions\":[],\"tags\":[\"a\"]}''
        then Some (VObj [(''dimensions'', VArr []), (''tags'', VArr [VStr ''a''])])
      else if s = ''{\"dimensions\":{\"length\":\"5m\",\"width\":\"2m\"},\"tags\":[\"b\"]}''
        then Some (VObj [(''dimensions'',
                            VObj [(''length'', VStr ''5m''), (''width'', VStr ''2m'')]),
                         (''tags'', VArr [VStr ''b''])])
      else None)"

definition dimensions_service :: env where
  "dimensions_service =
     \<lparr>CLOUDFLARE_ACCOUNT_ID = Some ''account'',
      CLOUDFLARE_API_TOKEN = Some ''token'',
      service = (\<lambda>n request.
        if n = 0 then Response (Some (VStr ''{\"dimensions\":[],\"tags\":[\"a\"]}''))
        else Response (Some (VStr
          ''{\"dimensions\":{\"length\":\"5m\",\"width\":\"2m\"},\"tags\":[\"b\"]}''))),
      JSON_parse = dimensions_parse,
      clock = ''2025-01-01T00:00:00.000Z''\<rparr>"

text \<open>
  The answer to the \<open>i\<close>-th request yields a parseable document: it is a text that is
  not empty and either parses to an object or an array, or does not parse and holds a
  part in braces that parses to an object.
\<close>

definition yields_document :: "env \<Rightarrow> nat \<Rightarrow> ai_request \<Rightarrow> bool" where
  "yields_document e i request =
     (case callCloudflareAI e i request of
        Throws \<Rightarrow> False
      | Response r \<Rightarrow>
          (case r of
             Some (VStr response) \<Rightarrow>
               response \<noteq> [] \<and>
               (case JSON_parse e (cleanJson response) of
                  Some parsed \<Rightarrow> is_object parsed
                | None \<Rightarrow>
                    (case search braces response of
                       Some (before, jsonMatch, after) \<Rightarrow> parse_object e jsonMatch \<noteq> None
                     | None \<Rightarrow> False))
           | _ \<Rightarrow> False))"

text \<open>A text of five words and 3523 characters, without a full stop or a line break.\<close>

definition two_chunk_text :: string where
  "two_chunk_text = ''alpha beta gamma delta '' @ replicate 3500 CHR ''e''"

text \<open>A text of 164 characters with one full stop, at index 63.\<close>

definition sentence_text :: string where
  "sentence_text = replicate 63 CHR ''a'' @ ''.'' @ replicate 100 CHR ''b''"

section \<open>Properties of the chunker\<close>

lemma last_index_from_bounds:
  "- 1 \<le> last_index_from s p k \<and> last_index_from s p k \<le> int k"
  by (induction k) auto

lemma lastIndexOf_bounds:
  assumes "0 \<le> i"
  shows "- 1 \<le> lastIndexOf s p i \<and> lastIndexOf s p i \<le> i"
proof -
  let ?k = "min (nat i) (length s - length p)"
  have "int ?k \<le> i" using assms by linarith
  then show ?thesis
    using last_index_from_bounds [of s p ?k] assms by (auto simp: lastIndexOf_def)
qed

text \<open>
  The bits of a positive integer, and the lower bound of the rounding: a number does not
  round to less than a double below it. So the sum of an index below \<open>2^53\<close> and a
  number that is not negative does not round to less than the index.
\<close>

lemma bit_length_bounds:
  "0 < n \<Longrightarrow> 2 ^ (bit_length n - 1) \<le> n \<and> n < 2 ^ bit_length n"
proof (induction n rule: bit_length.induct)
  case (1 n)
  show ?case
  proof (cases "n div 2 \<le> 0")
    case True
    then have "n = 1" using 1(2) by linarith
    then show ?thesis by (simp add: bit_length.simps)
  next
    case False
    then have pos: "0 < n div 2" by simp
    have ih: "2 ^ (bit_length (n div 2) - 1) \<le> n div 2 \<and> n div 2 < 2 ^ bit_length (n div 2)"
      using 1(1) 1(2) pos by simp
    have b: "bit_length n = Suc (bit_length (n div 2))"
      using 1(2) by (subst bit_length.simps) simp
    have b1: "0 < bit_length (n div 2)"
      using pos by (subst bit_length.simps) simp
    then obtain j where j: "bit_length (n div 2) = Suc j" by (cases "bit_length (n div 2)") auto
    show ?thesis using ih unfolding b j by (simp; linarith)
  qed
qed

lemma nearest_double_nonpos: "n \<le> 0 \<Longrightarrow> nearest_double n = n"
  by (simp add: nearest_double_def bit_length.simps)

lemma nearest_double_floor:
  "0 < n \<Longrightarrow> n div 2 ^ (bit_length n - 53) * 2 ^ (bit_length n - 53) \<le> nearest_double n"
  by (auto simp: nearest_double_def Let_def)

lemma multiple_le_div:
  fixes a d n :: int
  assumes "0 < d" "a * d \<le> n"
  shows "a * d \<le> n div d * d"
proof -
  have "a * d div d \<le> n div d" using assms by (intro zdiv_mono1) auto
  then have "a \<le> n div d" using assms(1) by simp
  then show ?thesis using assms(1) by simp
qed

lemma nearest_double_keeps:
  assumes "s < 2 ^ 53" "s * 2 ^ j \<le> n"
  shows "s * 2 ^ j \<le> nearest_double n"
proof (cases "n \<le> 0")
  case True
  then show ?thesis using assms(2) by (simp add: nearest_double_nonpos)
next
  case False
  then have pos: "0 < n" by simp
  define p :: int where "p = 2 ^ 53"
  define k where "k = bit_length n - 53"
  have sp: "s < p" using assms(1) by (simp add: p_def)
  have fl: "n div 2 ^ k * 2 ^ k \<le> nearest_double n"
    using nearest_double_floor [OF pos] by (simp add: k_def)
  have "s * 2 ^ j \<le> n div 2 ^ k * 2 ^ k"
  proof (cases "s \<le> 0")
    case True
    have "0 \<le> n div 2 ^ k" using pos by (simp add: pos_imp_zdiv_nonneg_iff)
    then have "0 \<le> n div 2 ^ k * 2 ^ k" by simp
    moreover have "s * 2 ^ j \<le> 0" using True by (simp add: mult_le_0_iff)
    ultimately show ?thesis by linarith
  next
    case spos: False
    show ?thesis
    proof (cases "k \<le> j")
      case True
      have e: "(2::int) ^ j = 2 ^ (j - k) * 2 ^ k"
        using True by (simp flip: power_add)
      have "s * 2 ^ (j - k) * 2 ^ k \<le> n"
        using assms(2) by (simp add: e mult.assoc)
      then have "s * 2 ^ (j - k) * 2 ^ k \<le> n div 2 ^ k * 2 ^ k"
        by (intro multiple_le_div) auto
      then show ?thesis by (simp add: e mult.assoc)
    next
      case False
      then have k: "bit_length n = k + 53" "Suc j \<le> k" by (auto simp: k_def)
      have "2 ^ (k + 52) \<le> n" using bit_length_bounds [OF pos] by (simp add: k add.commute)
      then have "(2::int) ^ 52 * 2 ^ k \<le> n" by (simp add: power_add mult.commute)
      then have low: "(2::int) ^ 52 * 2 ^ k \<le> n div 2 ^ k * 2 ^ k"
        by (intro multiple_le_div) auto
      have "(2::int) ^ Suc j \<le> 2 ^ k" using k(2) by (intro power_increasing) auto
      then have "(2::int) ^ 52 * 2 ^ Suc j \<le> 2 ^ 52 * 2 ^ k" by simp
      moreover have "s * 2 ^ j \<le> p * 2 ^ j" using sp by (intro mult_right_mono) auto
      moreover have "p * 2 ^ j = 2 ^ 52 * 2 ^ Suc j" by (simp add: p_def)
      ultimately show ?thesis using low by linarith
    qed
  qed
  then show ?thesis using fl by linarith
qed

lemma nearest_double_ge:
  assumes "s < 2 ^ 53" "0 \<le> x"
  shows "s * 2 ^ 53 \<le> nearest_double (s * 2 ^ 53 + x)"
  using assms(2) by (intro nearest_double_keeps [OF assms(1)]) simp

lemma times_seven_tenths_nonneg: "0 \<le> times_seven_tenths m"
  using nearest_double_ge [of 0 "int m * seven_tenths"]
  by (simp add: times_seven_tenths_def seven_tenths_def)

lemma index_plus_ge: "s * 2 ^ 53 \<le> index_plus s (times_seven_tenths m)"
  using nearest_double_ge [of s "times_seven_tenths m"] times_seven_tenths_nonneg [of m]
  by (simp add: index_plus_def)

text \<open>The end index of a pass of the loop is above its start index.\<close>

lemma chunk_end_advances:
  assumes "1 \<le> maxChunkSize" "startIndex < int (length t)"
  shows "startIndex < chunk_end t maxChunkSize startIndex"
  using assms index_plus_ge [of startIndex maxChunkSize]
  by (auto simp: chunk_end_def Let_def)

lemma chunk_loop_returns:
  assumes "1 \<le> maxChunkSize"
  shows "\<exists>r. chunk_loop t maxChunkSize startIndex chunks = Some r"
proof (induction "nat (int (length t) - startIndex)" arbitrary: startIndex chunks
    rule: less_induct)
  case less
  show ?case
  proof (cases "startIndex < int (length t)")
    case True
    let ?e = "chunk_end t maxChunkSize startIndex"
    have "startIndex < ?e" using chunk_end_advances [OF assms True] .
    then have "nat (int (length t) - ?e) < nat (int (length t) - startIndex)"
      using True by linarith
    from less [OF this] obtain r where
      "chunk_loop t maxChunkSize ?e (chunks @ [trim (substring t startIndex ?e)]) = Some r"
      by blast
    then show ?thesis using True by (subst chunk_loop.simps) simp
  next
    case False
    then show ?thesis by (subst chunk_loop.simps) simp
  qed
qed

lemma last_index_from_absent:
  assumes "c \<notin> set s"
  shows "last_index_from s (c # p) k = - 1"
proof (induction k)
  case 0
  have "take (length (c # p)) s \<noteq> c # p"
    using assms by (metis in_set_takeD list.set_intros(1))
  then show ?case by simp
next
  case (Suc k)
  have "take (length (c # p)) (drop (Suc k) s) \<noteq> c # p"
    using assms by (metis in_set_dropD in_set_takeD list.set_intros(1))
  then show ?case using Suc by simp
qed

lemma lastIndexOf_absent: "c \<notin> set s \<Longrightarrow> lastIndexOf s (c # p) i = - 1"
  by (simp add: lastIndexOf_def last_index_from_absent)

lemma last_index_from_found:
  assumes "c \<notin> set ys" "length xs \<le> k"
  shows "last_index_from (xs @ c # ys) [c] k = int (length xs)"
  using assms(2)
proof (induction k)
  case 0
  then show ?case by simp
next
  case (Suc k)
  show ?case
  proof (cases "Suc k = length xs")
    case True
    then have "length xs = Suc k" by simp
    then show ?thesis by simp
  next
    case False
    then have le: "length xs \<le> k" using Suc.prems by simp
    have "take 1 (drop (Suc k) (xs @ c # ys)) \<noteq> [c]"
    proof
      assume a: "take 1 (drop (Suc k) (xs @ c # ys)) = [c]"
      have "drop (Suc k) (xs @ c # ys) = drop (k - length xs) ys"
        using le by (simp add: Suc_diff_le)
      then have "c \<in> set (take 1 (drop (k - length xs) ys))" using a by simp
      then show False using assms(1) by (meson in_set_dropD in_set_takeD)
    qed
    then show ?thesis using Suc.IH [OF le] by simp
  qed
qed

lemma lastIndexOf_found:
  assumes "c \<notin> set ys" "int (length xs) \<le> i"
  shows "lastIndexOf (xs @ c # ys) [c] i = int (length xs)"
  using assms by (simp add: lastIndexOf_def last_index_from_found)

text \<open>
  The three passes of the loop on the text with one full stop, for a size of 90. The
  double \<open>90 * 0.7\<close> is \<open>62.99999999999999\<close>, below the index 63 of the full stop, and
  \<open>64 + 90 * 0.7\<close> is 127.
\<close>

lemma sentence_passes:
  "chunk_end sentence_text 90 0 = 64" "chunk_end sentence_text 90 64 = 154"
  "chunk_end sentence_text 90 154 = 164"
proof -
  have l: "length sentence_text = 164" by (simp add: sentence_text_def)
  have p: "index_plus 0 (times_seven_tenths 90) = 567453553048682432"
    "index_plus 64 (times_seven_tenths 90) = 127 * 2 ^ 53"
    by code_simp+
  have s: "\<And>i. 63 \<le> i \<Longrightarrow> lastIndexOf sentence_text ''.'' i = 63"
    using lastIndexOf_found [of "CHR ''.''" "replicate 100 CHR ''b''" "replicate 63 CHR ''a''"]
    by (simp add: sentence_text_def)
  have n: "\<And>i. lastIndexOf sentence_text [CHR 0x0A, CHR 0x0A] i = - 1"
    by (rule lastIndexOf_absent) (simp add: sentence_text_def)
  show "chunk_end sentence_text 90 0 = 64" "chunk_end sentence_text 90 64 = 154"
    "chunk_end sentence_text 90 154 = 164"
    by (simp_all add: chunk_end_def l p s n)
qed

lemma sentence_pieces:
  "trim (substring sentence_text 0 64) = replicate 63 CHR ''a'' @ ''.''"
  "trim (substring sentence_text 64 154) = replicate 90 CHR ''b''"
  "trim (substring sentence_text 154 164) = replicate 10 CHR ''b''"
  by code_simp+

lemma sentence_chunks:
  "chunkText sentence_text 90
     = Some [replicate 63 CHR ''a'' @ ''.'', replicate 90 CHR ''b'', replicate 10 CHR ''b'']"
proof -
  have l: "length sentence_text = 164" by (simp add: sentence_text_def)
  show ?thesis
    apply (simp add: chunkText_def l)
    apply (subst chunk_loop.simps)
    apply (simp only: l sentence_passes sentence_pieces)
    apply (subst chunk_loop.simps)
    apply (simp only: l sentence_passes sentence_pieces)
    apply (subst chunk_loop.simps)
    apply (simp only: l sentence_passes sentence_pieces)
    apply (subst chunk_loop.simps)
    apply (simp add: l)
    done
qed

text \<open>
  C4, as the code has it. A text no longer than the threshold comes back as the one
  chunk, unchanged: the short path returns the text itself and does not trim it. The
  chunk is the trimmed input only when the text has no white space at either end.
\<close>

theorem chunkText_short:
  "length t \<le> maxChunkSize \<Longrightarrow> chunkText t maxChunkSize = Some [t]"
  by (simp add: chunkText_def)

theorem chunkText_short_witness:
  "length '' a'' \<le> 3500 \<and> chunkText '' a'' 3500 = Some ['' a'']"
  using chunkText_short [of "'' a''" 3500] by simp

text \<open>
  C4 as the claim words it fails on a text with a leading blank: the chunk is the text,
  not the trimmed text.
\<close>

theorem chunkText_short_trimmed_counterexample:
  "length '' a'' \<le> 3500 \<and> chunkText '' a'' 3500 \<noteq> Some [trim '' a'']"
  by (simp add: chunkText_def trim_def is_space_def charCode_def)

text \<open>
  C9. With a maximum chunk size of at least one character the chunker returns, and each
  pass of its loop moves the start index forward: the end index of a pass, at the raw
  window edge or one past a break point, is above the start index it was computed from.
  The break point is compared with the double \<open>startIndex + maxChunkSize * 0.7\<close>, which
  is not below the start index.
\<close>

theorem chunkText_terminates:
  "1 \<le> maxChunkSize \<Longrightarrow>
     (\<exists>chunks. chunkText t maxChunkSize = Some chunks) \<and>
     (\<forall>startIndex. startIndex < int (length t) \<longrightarrow>
        startIndex < chunk_end t maxChunkSize startIndex)"
  using chunk_loop_returns [of maxChunkSize t 0 "[]"] chunk_end_advances [of maxChunkSize _ t]
  by (auto simp: chunkText_def)

text \<open>
  A run with a size of 90 on a text of 63 letters, a full stop and 100 letters. The first
  pass ends one past the full stop at index 63, a break point since
  \<open>90 * 0.7\<close> is \<open>62.99999999999999\<close>; the second pass finds no break point above
  \<open>64 + 90 * 0.7\<close> and ends at the window edge 154; the third ends with the text.
\<close>

theorem chunkText_terminates_witness:
  "(1::nat) \<le> 90 \<and> (\<exists>chunks. chunkText sentence_text 90 = Some chunks) \<and>
     0 < chunk_end sentence_text 90 0 \<and> 64 < chunk_end sentence_text 90 64 \<and>
     chunk_end sentence_text 90 0 = 64 \<and> chunk_end sentence_text 90 64 = 154 \<and>
     chunkText sentence_text 90
       = Some [replicate 63 CHR ''a'' @ ''.'', replicate 90 CHR ''b'', replicate 10 CHR ''b'']"
proof -
  have l: "length sentence_text = 164" by (simp add: sentence_text_def)
  show ?thesis
    using chunkText_terminates [of 90 sentence_text] sentence_passes sentence_chunks
    by (simp add: l)
qed

section \<open>Properties of the classifier\<close>

lemma str_includes_iff: "str_includes s p \<longleftrightarrow> (\<exists>a b. s = a @ p @ b)"
proof (induction s)
  case Nil
  then show ?case by auto
next
  case (Cons c cs)
  show ?case
  proof
    assume "str_includes (c # cs) p"
    then consider "take (length p) (c # cs) = p" | "str_includes cs p" by auto
    then show "\<exists>a b. c # cs = a @ p @ b"
    proof cases
      case 1
      then have "c # cs = [] @ p @ drop (length p) (c # cs)"
        by (metis append_Nil append_take_drop_id)
      then show ?thesis by blast
    next
      case 2
      then obtain a b where "cs = a @ p @ b" using Cons.IH by blast
      then have "c # cs = (c # a) @ p @ b" by simp
      then show ?thesis by blast
    qed
  next
    assume "\<exists>a b. c # cs = a @ p @ b"
    then obtain a b where ab: "c # cs = a @ p @ b" by blast
    show "str_includes (c # cs) p"
    proof (cases a)
      case Nil
      then have "take (length p) (c # cs) = p" using ab by simp
      then show ?thesis by simp
    next
      case (Cons x a')
      then have "cs = a' @ p @ b" using ab by simp
      then have "str_includes cs p" using Cons.IH by blast
      then show ?thesis by simp
    qed
  qed
qed

lemma includes_lower:
  assumes "str_includes s p" "toLowerCase p = p"
  shows "str_includes (toLowerCase s) p"
proof -
  obtain a b where "s = a @ p @ b" using assms(1) str_includes_iff by blast
  then have "toLowerCase s = toLowerCase a @ p @ toLowerCase b"
    using assms(2) by (simp add: toLowerCase_def)
  then show ?thesis using str_includes_iff by blast
qed

lemma first_match_chain:
  "(case find (\<lambda>rule. fst rule t) ((p, l) # rules) of
      Some rule \<Rightarrow> snd rule | None \<Rightarrow> d) =
   (if p t then l
    else (case find (\<lambda>rule. fst rule t) rules of Some rule \<Rightarrow> snd rule | None \<Rightarrow> d))"
  by simp

lemma detectContentType_classify: "detectContentType t = classify t"
  unfolding classify_def classifier_rules_def detectContentType_def Let_def mentions_def
  by (simp only: first_match_chain disj_assoc if_True)

lemma lower_keywords:
  "toLowerCase ''abstract'' = ''abstract''"
  "toLowerCase ''introduction'' = ''introduction''"
  "toLowerCase ''conclusion'' = ''conclusion''"
  by code_simp+

lemma academic_first:
  assumes "str_includes t ''abstract''" "str_includes t ''introduction''"
    "str_includes t ''conclusion''"
  shows "detectContentType t = ''Academic Paper''"
  using assms by (simp add: detectContentType_def Let_def includes_lower lower_keywords)

text \<open>
  C5. The classifier is a function of the text alone and returns a label for every
  text. It is the first-match evaluation of the ten rules of section 4.1 in their
  order, the last rule holding of every text and giving General Text. A text that
  contains abstract, introduction and conclusion, and also ingredients and recipe, is an
  Academic Paper and not a Recipe.
\<close>

theorem detectContentType_rule_order:
  "detectContentType t = classify t \<and>
   (str_includes t ''abstract'' \<and> str_includes t ''introduction''
      \<and> str_includes t ''conclusion'' \<and> str_includes t ''ingredients''
      \<and> str_includes t ''recipe''
    \<longrightarrow> detectContentType t = ''Academic Paper'' \<and> detectContentType t \<noteq> ''Recipe'')"
  using detectContentType_classify [of t] academic_first [of t] by simp

theorem detectContentType_rule_order_witness:
  "str_includes ''abstract introduction conclusion ingredients recipe'' ''abstract''
   \<and> str_includes ''abstract introduction conclusion ingredients recipe'' ''introduction''
   \<and> str_includes ''abstract introduction conclusion ingredients recipe'' ''conclusion''
   \<and> str_includes ''abstract introduction conclusion ingredients recipe'' ''ingredients''
   \<and> str_includes ''abstract introduction conclusion ingredients recipe'' ''recipe''
   \<and> detectContentType ''abstract introduction conclusion ingredients recipe''
       = ''Academic Paper''"
proof -
  let ?t = "''abstract introduction conclusion ingredients recipe''"
  have h: "str_includes ?t ''abstract'' \<and> str_includes ?t ''introduction''
      \<and> str_includes ?t ''conclusion'' \<and> str_includes ?t ''ingredients''
      \<and> str_includes ?t ''recipe''"
    by simp
  with detectContentType_rule_order [of ?t] show ?thesis by blast
qed

section \<open>Properties of the merge\<close>

lemma merge_fold:
  "mergeAnalysisResults target source = fold merge_key (own_props source) (Inr target)"
  unfolding merge_key_def by (rule mergeAnalysisResults.simps)

lemma map_of_update_prop:
  "map_of ps k = Some old \<Longrightarrow> map_of (update_prop k v ps) = (map_of ps)(k \<mapsto> v)"
  by (induction ps) (auto simp: fun_eq_iff)

lemma map_of_insert_index:
  "map_of ps k = None \<Longrightarrow> map_of (insert_index k v ps) = (map_of ps)(k \<mapsto> v)"
  by (induction ps) (auto simp: fun_eq_iff split: if_splits)

lemma map_of_set_prop: "map_of (set_prop k v ps) = (map_of ps)(k \<mapsto> v)"
proof (cases "map_of ps k")
  case None
  then have "map_of (ps @ [(k, v)]) = (map_of ps)(k \<mapsto> v)"
    by (auto simp: fun_eq_iff map_add_def split: option.splits)
  then show ?thesis using None by (simp add: set_prop_def map_of_insert_index)
next
  case (Some old)
  then show ?thesis by (simp add: set_prop_def map_of_update_prop)
qed

lemma fold_merge_key_Inl: "fold merge_key ps (Inl b) = Inl b"
  by (induction ps) (auto simp: merge_key_def)

text \<open>A step for one key leaves the value at every other key as it was.\<close>

lemma merge_key_other:
  assumes "merge_key (key, sv) (Inr (VObj tps)) = Inr r" "key \<noteq> k"
  shows "\<exists>rps. r = VObj rps \<and> map_of rps k = map_of tps k"
  using assms
  by (auto simp: merge_key_def map_of_set_prop
        split: lookup.splits if_splits sum.splits merge_stop.splits)

lemma fold_merge_key_other:
  assumes "fold merge_key ps (Inr (VObj tps)) = Inr r" "k \<notin> fst ` set ps"
  shows "\<exists>rps. r = VObj rps \<and> map_of rps k = map_of tps k"
  using assms
proof (induction ps arbitrary: tps)
  case Nil
  then show ?case by auto
next
  case (Cons p ps)
  obtain key sv where p: "p = (key, sv)" by (cases p)
  show ?case
  proof (cases "merge_key (key, sv) (Inr (VObj tps))")
    case (Inl b)
    then show ?thesis using Cons.prems(1) p by (simp add: fold_merge_key_Inl)
  next
    case (Inr t)
    have "key \<noteq> k" using Cons.prems(2) p by auto
    from merge_key_other [OF Inr this] obtain tps' where
      t: "t = VObj tps'" "map_of tps' k = map_of tps k" by blast
    have "fold merge_key ps (Inr (VObj tps')) = Inr r"
      using Cons.prems(1) p Inr t by simp
    moreover have "k \<notin> fst ` set ps" using Cons.prems(2) by auto
    ultimately show ?thesis using Cons.IH t by metis
  qed
qed

text \<open>
  The value of the result at a key of the source is what the step for that key makes of
  the value the target had there: the keys of an object are distinct, so no other step
  touches it.
\<close>

lemma fold_merge_key_at:
  assumes "fold merge_key sps (Inr (VObj tps)) = Inr r" "distinct (map fst sps)"
    "map_of sps k = Some sv" "map_of tps k = before"
    and step: "\<And>tps' t. map_of tps' k = before \<Longrightarrow> merge_key (k, sv) (Inr (VObj tps')) = Inr t
               \<Longrightarrow> \<exists>rps. t = VObj rps \<and> map_of rps k = after"
  shows "\<exists>rps. r = VObj rps \<and> map_of rps k = after"
  using assms(1-4)
proof (induction sps arbitrary: tps)
  case Nil
  then show ?case by simp
next
  case (Cons p sps)
  obtain key v where p: "p = (key, v)" by (cases p)
  show ?case
  proof (cases "merge_key (key, v) (Inr (VObj tps))")
    case (Inl b)
    then show ?thesis using Cons.prems(1) p by (simp add: fold_merge_key_Inl)
  next
    case (Inr t)
    have rest: "fold merge_key sps (Inr t) = Inr r" using Cons.prems(1) p Inr by simp
    show ?thesis
    proof (cases "key = k")
      case True
      then have "v = sv" using Cons.prems(3) p by simp
      with step [OF Cons.prems(4)] Inr True obtain tps' where
        t: "t = VObj tps'" "map_of tps' k = after" by blast
      have "k \<notin> fst ` set sps" using Cons.prems(2) p True by auto
      from fold_merge_key_other [OF rest [unfolded t(1)] this] t(2) show ?thesis by auto
    next
      case False
      from merge_key_other [OF Inr False] obtain tps' where
        t: "t = VObj tps'" "map_of tps' k = map_of tps k" by blast
      have 1: "fold merge_key sps (Inr (VObj tps')) = Inr r" using rest t by simp
      have 2: "distinct (map fst sps)" using Cons.prems(2) by simp
      have 3: "map_of sps k = Some sv" using Cons.prems(3) p False by simp
      have 4: "map_of tps' k = before" using t Cons.prems(4) by simp
      from Cons.IH [OF 1 2 3 4] show ?thesis .
    qed
  qed
qed

lemma merge_at_key:
  assumes "mergeAnalysisResults (VObj tps) source = Inr r"
    "distinct (map fst (own_props source))"
    "map_of (own_props source) k = Some sv" "map_of tps k = before"
    and "\<And>tps' t. map_of tps' k = before \<Longrightarrow> merge_key (k, sv) (Inr (VObj tps')) = Inr t
               \<Longrightarrow> \<exists>rps. t = VObj rps \<and> map_of rps k = after"
  shows "member r k = after"
proof -
  have f: "fold merge_key (own_props source) (Inr (VObj tps)) = Inr r"
    using assms(1) by (simp add: merge_fold)
  have "\<exists>rps. r = VObj rps \<and> map_of rps k = after"
  proof (rule fold_merge_key_at [OF f assms(2) assms(3) assms(4)])
    fix tps' t
    assume "map_of tps' k = before" "merge_key (k, sv) (Inr (VObj tps')) = Inr t"
    then show "\<exists>rps. t = VObj rps \<and> map_of rps k = after" by (rule assms(5))
  qed
  then show ?thesis by auto
qed

text \<open>
  Where the target holds a scalar that counts as true (a number other than zero, a
  string that is not empty, \<open>true\<close>) and the source holds a scalar, the target keeps its
  value.
\<close>

lemma merge_keeps_truthy_scalar:
  assumes "mergeAnalysisResults (VObj tps) source = Inr r"
    "distinct (map fst (own_props source))"
    "map_of (own_props source) k = Some sv" "map_of tps k = Some tv"
    "\<not> is_object sv" "\<not> is_object tv" "\<not> falsy (Some tv)"
  shows "member r k = Some tv"
proof (rule merge_at_key [OF assms(1-4)])
  fix tps' t
  assume "map_of tps' k = Some tv" "merge_key (k, sv) (Inr (VObj tps')) = Inr t"
  then show "\<exists>rps. t = VObj rps \<and> map_of rps k = Some tv"
    using assms(5-7) by (auto simp: merge_key_def get_prop_def is_object_def)
qed

text \<open>
  C1, at an input where the code departs from it. The target holds the number 0 at a
  key and the source holds 7 there, both scalars. The branch that is meant to add new
  properties tests \<open>!target[key]\<close>, which also holds of a zero, an empty string,
  \<open>false\<close> and \<open>null\<close>: the source's value replaces the target's.
\<close>

theorem merge_overwrites_falsy_scalar:
  "mergeAnalysisResults (VObj [(''count'', VNum (Fin 0))]) (VObj [(''count'', VNum (Fin 7))])
     = Inr (VObj [(''count'', VNum (Fin 7))])"
  by (simp add: merge_fold merge_key_def get_prop_def set_prop_def is_object_def)

lemma values_update_prop: "snd ` set (update_prop k v ps) \<subseteq> insert v (snd ` set ps)"
  by (induction ps) (fastforce split: if_splits)+

lemma values_insert_index: "snd ` set (insert_index k v ps) \<subseteq> insert v (snd ` set ps)"
  by (induction ps) (fastforce split: if_splits)+

lemma values_set_prop: "snd ` set (set_prop k v ps) \<subseteq> insert v (snd ` set ps)"
  using values_update_prop [of k v ps] values_insert_index [of k v ps]
  by (auto simp: set_prop_def split: option.splits)

lemma flat_set_prop:
  assumes "\<not> is_plain_object v" "\<forall>w \<in> snd ` set ps. \<not> is_plain_object w"
  shows "\<forall>w \<in> snd ` set (set_prop k v ps). \<not> is_plain_object w"
  using assms values_set_prop [of k v ps] by blast

lemma merge_key_flat:
  assumes sv: "\<not> is_plain_object sv" and flat: "\<forall>w \<in> snd ` set tps. \<not> is_plain_object w"
    and key: "key \<noteq> ''__proto__''"
  shows "\<exists>rps. merge_key (key, sv) (Inr (VObj tps)) = Inr (VObj rps)
           \<and> (\<forall>w \<in> snd ` set rps. \<not> is_plain_object w)"
proof (cases "get_prop tps key")
  case (Own tv)
  then have "map_of tps key = Some tv"
    by (auto simp: get_prop_def split: option.splits if_splits)
  then have "tv \<in> snd ` set tps" by (force dest: map_of_SomeD)
  then have tv: "\<not> is_plain_object tv" using flat by blast
  consider (arrays) "is_array sv \<and> is_array tv"
    | (assign) "\<not> (is_array sv \<and> is_array tv)" "falsy (Some tv)"
    | (keep) "\<not> (is_array sv \<and> is_array tv)" "\<not> falsy (Some tv)"
    by blast
  then show ?thesis
  proof cases
    case arrays
    have "merge_key (key, sv) (Inr (VObj tps))
        = Inr (VObj (set_prop key (VArr (dedupe (elems tv @ elems sv))) tps))"
      using Own arrays by (simp add: merge_key_def)
    moreover have "\<not> is_plain_object (VArr (dedupe (elems tv @ elems sv)))" by simp
    ultimately show ?thesis using flat_set_prop [OF _ flat] by blast
  next
    case assign
    have "merge_key (key, sv) (Inr (VObj tps)) = Inr (VObj (set_prop key sv tps))"
      using Own assign sv tv by (auto simp: merge_key_def is_object_def)
    then show ?thesis using flat_set_prop [OF sv flat] by blast
  next
    case keep
    have "merge_key (key, sv) (Inr (VObj tps)) = Inr (VObj tps)"
      using Own keep sv tv by (auto simp: merge_key_def is_object_def)
    then show ?thesis using flat by blast
  qed
next
  case Inherited_function
  then have "merge_key (key, sv) (Inr (VObj tps)) = Inr (VObj tps)"
    by (simp add: merge_key_def)
  then show ?thesis using flat by blast
next
  case Prototype_object
  then show ?thesis using key by (simp add: get_prop_def split: option.splits if_splits)
next
  case Undefined
  then have "merge_key (key, sv) (Inr (VObj tps)) = Inr (VObj (set_prop key sv tps))"
    by (simp add: merge_key_def)
  then show ?thesis using flat_set_prop [OF sv flat] by blast
qed

lemma fold_merge_key_flat:
  assumes "\<forall>(k, v) \<in> set sps. \<not> is_plain_object v \<and> k \<noteq> ''__proto__''"
    "\<forall>w \<in> snd ` set tps. \<not> is_plain_object w"
  shows "\<exists>rps. fold merge_key sps (Inr (VObj tps)) = Inr (VObj rps)"
  using assms
proof (induction sps arbitrary: tps)
  case Nil
  then show ?case by simp
next
  case (Cons p sps)
  obtain key sv where p: "p = (key, sv)" by (cases p)
  have "\<not> is_plain_object sv" "key \<noteq> ''__proto__''" using Cons.prems(1) p by auto
  from merge_key_flat [OF this(1) Cons.prems(2) this(2)] obtain rps where
    r: "merge_key (key, sv) (Inr (VObj tps)) = Inr (VObj rps)"
       "\<forall>w \<in> snd ` set rps. \<not> is_plain_object w" by blast
  have "\<forall>(k, v) \<in> set sps. \<not> is_plain_object v \<and> k \<noteq> ''__proto__''"
    using Cons.prems(1) by simp
  from Cons.IH [OF this r(2)] show ?case using p r(1) by simp
qed

text \<open>
  On documents whose values are scalars and arrays, with no key \<open>__proto__\<close> in the
  source, the merge returns an object.
\<close>

lemma merge_flat_returns:
  assumes "\<forall>(k, v) \<in> set (own_props source). \<not> is_plain_object v \<and> k \<noteq> ''__proto__''"
    "\<forall>w \<in> snd ` set tps. \<not> is_plain_object w"
  shows "\<exists>rps. mergeAnalysisResults (VObj tps) source = Inr (VObj rps)"
  using fold_merge_key_flat [OF assms] by (simp add: merge_fold)

lemma findIndex_lower: "- 1 \<le> findIndex p xs"
  by (induction xs) (auto simp: Let_def)

lemma findIndex_iff:
  "findIndex p xs = int i \<longleftrightarrow> i < length xs \<and> p (xs ! i) \<and> (\<forall>j<i. \<not> p (xs ! j))"
proof (induction xs arbitrary: i)
  case Nil
  then show ?case by simp
next
  case (Cons x xs)
  show ?case
  proof (cases "p x")
    case True
    then show ?thesis by (cases i) auto
  next
    case False
    show ?thesis
    proof (cases i)
      case 0
      then show ?thesis using False findIndex_lower [of p xs] by (auto simp: Let_def)
    next
      case (Suc n)
      have "findIndex p (x # xs) = int (Suc n) \<longleftrightarrow> findIndex p xs = int n"
        using False findIndex_lower [of p xs] by (auto simp: Let_def)
      also have "\<dots> \<longleftrightarrow> n < length xs \<and> p (xs ! n) \<and> (\<forall>j<n. \<not> p (xs ! j))"
        using Cons.IH by simp
      also have "\<dots> \<longleftrightarrow> Suc n < length (x # xs) \<and> p ((x # xs) ! Suc n)
          \<and> (\<forall>j<Suc n. \<not> p ((x # xs) ! j))"
        using False by (auto simp: less_Suc_eq_0_disj)
      finally show ?thesis using Suc by simp
    qed
  qed
qed

lemma enumerate_nth: "enumerate 0 xs = map (\<lambda>i. (i, xs ! i)) [0..<length xs]"
  by (rule nth_equalityI) (auto simp: nth_enumerate_eq)

text \<open>
  The filter of the merge keeps the element at index \<open>i\<close> exactly when no element before
  it has the same serialization: each serialization stays once, at its first
  occurrence, and the elements kept stay in their order.
\<close>

lemma dedupe_first_occurrences:
  "dedupe zs = map (\<lambda>i. zs ! i)
     (filter (\<lambda>i. \<forall>j<i. JSON_stringify (zs ! j) \<noteq> JSON_stringify (zs ! i)) [0..<length zs])"
proof -
  have "filter (\<lambda>(index, item).
          findIndex (\<lambda>i. JSON_stringify i = JSON_stringify item) zs = int index)
        (enumerate 0 zs)
      = map (\<lambda>i. (i, zs ! i))
          (filter (\<lambda>i. \<forall>j<i. JSON_stringify (zs ! j) \<noteq> JSON_stringify (zs ! i))
             [0..<length zs])"
    unfolding enumerate_nth filter_map
    by (rule arg_cong [where f = "map _"], rule filter_cong) (auto simp: findIndex_iff)
  then show ?thesis by (simp add: dedupe_def comp_def)
qed

text \<open>
  Where the merge returns, and the target, an object, and the source both hold an array
  at a key, the merged document holds at that key the target's elements followed by the
  source's, without the elements that have the serialization of an earlier one.
\<close>

lemma merge_arrays:
  assumes "mergeAnalysisResults (VObj tps) source = Inr r"
    "distinct (map fst (own_props source))"
    "map_of (own_props source) k = Some (VArr ys)" "map_of tps k = Some (VArr xs)"
  shows "member r k = Some (VArr (dedupe (xs @ ys)))"
proof (rule merge_at_key [OF assms])
  fix tps' t
  assume "map_of tps' k = Some (VArr xs)" "merge_key (k, VArr ys) (Inr (VObj tps')) = Inr t"
  then show "\<exists>rps. t = VObj rps \<and> map_of rps k = Some (VArr (dedupe (xs @ ys)))"
    by (auto simp: merge_key_def get_prop_def map_of_set_prop)
qed

lemma merge_scenario:
  "mergeAnalysisResults
     (VObj [(''a'', VArr [VNum (Fin 1), VNum (Fin 2)]), (''b'', VStr ''x'')])
     (VObj [(''a'', VArr [VNum (Fin 2), VNum (Fin 3)]), (''b'', VStr ''y''),
            (''c'', VNum (Fin 5))])
   = Inr (VObj [(''a'', VArr [VNum (Fin 1), VNum (Fin 2), VNum (Fin 3)]), (''b'', VStr ''x''),
                (''c'', VNum (Fin 5))])"
  by code_simp

text \<open>
  The second branch of the merge also takes an array of the target with an object of the
  source: the keys of the object are written into the array.
\<close>

lemma merge_object_into_array:
  "mergeAnalysisResults (VObj [(''e'', VArr [])]) (VObj [(''e'', VObj [(''0'', VStr ''p'')])])
     = Inr (VObj [(''e'', VArr [VStr ''p''])])"
  by code_simp

section \<open>Properties of the confidence scorer\<close>

text \<open>Whenever the scorer returns, its value lies between 0.30 and 0.95.\<close>

lemma add_when_half:
  assumes "2 ^ 55 \<le> c" "0 \<le> x"
  shows "2 ^ 55 \<le> add_when b x c"
proof -
  have "1 * 2 ^ 55 \<le> nearest_double (c + x)"
    using assms by (intro nearest_double_keeps) auto
  then show ?thesis using assms(1) by (simp add: add_when_def add_double_def)
qed

lemma clamp_range:
  assumes "2 ^ 55 \<le> (x::int)"
  shows "(3::rat) / 10 \<le> of_int (min 68454714336031536 (max 21617278211378380 x)) / 2 ^ 56
     \<and> of_int (min 68454714336031536 (max 21617278211378380 x)) / 2 ^ 56 \<le> (95::rat) / 100"
proof -
  define y where "y = min 68454714336031536 (max 21617278211378380 x)"
  have "2 ^ 55 \<le> y" "y \<le> 68454714336031536" using assms by (auto simp: y_def)
  then have "(of_int (2 ^ 55) :: rat) \<le> of_int y" "(of_int y :: rat) \<le> of_int 68454714336031536"
    by (simp_all only: of_int_le_iff)
  then show ?thesis unfolding y_def [symmetric] by (simp add: field_simps)
qed

lemma calculateConfidence_value:
  assumes "marked_fallback d = Inr marked"
  shows "\<exists>x. calculateConfidence d t
             = Inr (of_int (min 68454714336031536 (max 21617278211378380 x)) / 2 ^ 56)
           \<and> 2 ^ 55 \<le> x"
proof -
  have t: "(0::int) \<le> tenth" "(0::int) \<le> 2 * tenth" by (simp_all add: tenth_def)
  show ?thesis
    unfolding calculateConfidence_def Let_def assms sum.case
    by (rule exI, rule conjI, rule refl) (intro add_when_half t order_refl)
qed

lemma calculateConfidence_range:
  assumes "calculateConfidence d t = Inr c"
  shows "3 / 10 \<le> c \<and> c \<le> 95 / 100"
proof (cases "marked_fallback d")
  case (Inl err)
  then show ?thesis using assms by (simp add: calculateConfidence_def Let_def)
next
  case (Inr marked)
  from calculateConfidence_value [OF Inr, of t] obtain x where
    v: "calculateConfidence d t
          = Inr (of_int (min 68454714336031536 (max 21617278211378380 x)) / 2 ^ 56)"
    and x: "2 ^ 55 \<le> x" by blast
  have "c = of_int (min 68454714336031536 (max 21617278211378380 x)) / 2 ^ 56"
    using v unfolding assms by (simp only: sum.inject)
  then show ?thesis using clamp_range [OF x] by (simp only:)
qed

lemma calculateConfidence_returns:
  "marked_fallback d = Inr b \<Longrightarrow> \<exists>c. calculateConfidence d t = Inr c"
  using calculateConfidence_value [of d b t] by blast

text \<open>
  C8, at an input where the code departs from it. The document has a \<open>metadata\<close>
  object whose \<open>analysis_method\<close> is the number 1. The optional chain guards against
  \<open>null\<close> and \<open>undefined\<close> only; a number has no method \<open>includes\<close>, and the scorer
  raises \<open>TypeError\<close> instead of returning a value.
\<close>

theorem calculateConfidence_raises:
  "calculateConfidence
     (VObj [(''title'', VStr ''Report''),
            (''metadata'', VObj [(''analysis_method'', VNum (Fin 1))])])
     ''Quarterly report for the board''
   = Inl (TypeError ''data.metadata?.analysis_method?.includes is not a function'')"
  by (simp add: calculateConfidence_def marked_fallback_def Let_def)

section \<open>Properties of the fallback analyzer\<close>

text \<open>
  C10, at an input where the code departs from it. The text \<open>. . . . .\<close> is not
  empty, has five words and nine characters, so the validation accepts it. Every piece
  between its sentence terminators is blank: the sentence count is 0, and the average
  sentence length, 5 divided by 0, is \<open>Infinity\<close>.
\<close>

theorem fallback_divides_by_zero:
  "(case analyzeText no_credentials ''. . . . .'' of
      Returns (Success a) \<Rightarrow>
        at_path (data a) [''content_analysis'', ''word_count''] = Some (VNum (Fin 5))
        \<and> at_path (data a) [''content_analysis'', ''sentence_count''] = Some (VNum (Fin 0))
        \<and> at_path (data a) [''content_analysis'', ''average_sentence_length'']
            = Some (VNum PInf)
    | _ \<Rightarrow> False)"
  by code_simp

section \<open>Properties of the extractor\<close>

lemma loop_past_end:
  assumes "min (length chunks) 2 \<le> i"
  shows "extraction_loop e ct chunks i acc = Finished acc"
proof -
  have "\<not> i < min (length chunks) 2" using assms by linarith
  then show ?thesis by (subst extraction_loop.simps) (simp only: if_False)
qed

lemma loop_unfold:
  assumes "i < min (length chunks) 2"
  shows "extraction_loop e ct chunks i acc
       = loop_body e ct (chunks ! i) i acc (extraction_loop e ct chunks (i + 1))"
  by (subst extraction_loop.simps) (simp only: assms if_True loop_body_def)

lemma loop_body_nothing:
  assumes "\<not> yields_document e i (extraction_request ct chunk)"
  shows "loop_body e ct chunk i acc continue = Thrown
       \<or> loop_body e ct chunk i acc continue = continue acc"
  using assms
  by (auto simp: loop_body_def yields_document_def
        split: ai_reply.splits option.splits jsval.splits prod.splits)

lemma loop_nothing:
  assumes "\<forall>i<2. i < length chunks \<longrightarrow> \<not> yields_document e i (extraction_request ct (chunks ! i))"
  shows "extraction_loop e ct chunks i acc = Thrown \<or> extraction_loop e ct chunks i acc = Finished acc"
proof (induction "min (length chunks) 2 - i" arbitrary: i)
  case 0
  then show ?case by (simp add: loop_past_end)
next
  case (Suc n)
  then have i: "i < min (length chunks) 2" by linarith
  then have "\<not> yields_document e i (extraction_request ct (chunks ! i))" using assms by simp
  from loop_body_nothing [OF this]
  have "extraction_loop e ct chunks i acc = Thrown
       \<or> extraction_loop e ct chunks i acc = extraction_loop e ct chunks (i + 1) acc"
    unfolding loop_unfold [OF i] .
  moreover have "n = min (length chunks) 2 - (i + 1)" using Suc.hyps(2) by linarith
  ultimately show ?case using Suc.hyps(1) [of "i + 1"] by metis
qed

lemma loop_take2:
  "extraction_loop e ct chunks i acc = extraction_loop e ct (take 2 chunks) i acc"
proof (induction "min (length chunks) 2 - i" arbitrary: i acc)
  case 0
  then show ?case by (simp add: loop_past_end)
next
  case (Suc n)
  then have i: "i < min (length chunks) 2" by linarith
  have n: "n = min (length chunks) 2 - (i + 1)" using Suc.hyps(2) by linarith
  have ih: "extraction_loop e ct chunks (i + 1) = extraction_loop e ct (take 2 chunks) (i + 1)"
    using Suc.hyps(1) [OF n] by (rule ext)
  have nth: "take 2 chunks ! i = chunks ! i" using i by simp
  have cond: "i < min (length (take 2 chunks)) 2" using i by simp
  show ?case
    unfolding loop_unfold [OF i] loop_unfold [OF cond] nth ih ..
qed

lemma no_credentials_no_document:
  "unset (CLOUDFLARE_ACCOUNT_ID e) \<or> unset (CLOUDFLARE_API_TOKEN e) \<Longrightarrow>
     \<not> yields_document e i request"
  by (auto simp: yields_document_def callCloudflareAI_def)

lemma extractor_nothing:
  assumes "chunkText t 3500 = Some chunks"
    "\<forall>i<2. i < length chunks \<longrightarrow> \<not> yields_document e i (extraction_request ct (chunks ! i))"
  shows "analyzeTextWithAI e t ct = Returns (fallbackAnalysis (clock e) t ct)"
  using loop_nothing [OF assms(2), of 0 "VObj []"] assms(1)
  by (auto simp: analyzeTextWithAI_def)

lemma fallback_method:
  "at_path (fallbackAnalysis now t ct) [''metadata'', ''analysis_method'']
     = Some (VStr ''fallback_rule_based'')"
  by (simp add: fallbackAnalysis_def Let_def)

lemma extractFields_nested:
  assumes "(k, VObj qs) \<in> set ps" "(k', v) \<in> set qs" "k \<noteq> []"
  shows "k @ ''.'' @ k' \<in> set (extractFields (VObj ps) [])"
proof -
  have "k @ ''.'' @ k' \<in> set (extractFields (VObj qs) k)"
    using assms(2,3) by (subst extractFields.simps) force
  then show ?thesis
    using assms(1) by (subst extractFields.simps) force
qed

lemma fallback_fields:
  "''content_analysis.word_count'' \<in> set (extractFields (fallbackAnalysis now t ct) [])"
proof -
  obtain ps qs where "fallbackAnalysis now t ct = VObj ps"
    "(''content_analysis'', VObj qs) \<in> set ps" "(''word_count'', count_of (length (words_of t))) \<in> set qs"
    by (simp add: fallbackAnalysis_def Let_def)
  then show ?thesis using extractFields_nested [of "''content_analysis''" qs ps "''word_count''"]
    by simp
qed

lemma chunkText_3500_returns: "\<exists>chunks. chunkText t 3500 = Some chunks"
  using chunk_loop_returns [of 3500 t 0 "[]"] by (auto simp: chunkText_def)

lemma extractor_by_loop:
  assumes "chunkText t 3500 = Some chunks"
  shows "analyzeTextWithAI e t ct =
     (case extraction_loop e ct (take 2 chunks) 0 (VObj []) of
        Finished combinedAnalysis \<Rightarrow>
          if length (own_props combinedAnalysis) > 0 then Returns combinedAnalysis
          else Returns (fallbackAnalysis (clock e) t ct)
      | Thrown \<Rightarrow> Returns (fallbackAnalysis (clock e) t ct)
      | Left b \<Rightarrow> Beyond b)"
  using assms loop_take2 [of e ct chunks 0 "VObj []"] by (simp add: analyzeTextWithAI_def)

text \<open>
  C7. The extractor chunks the text with the threshold 3500, which always returns, and
  its result is that of the loop over the first two chunks: the chunks after them play no
  part. When no processed chunk yields a parseable document, and so when a credential is
  missing, the extractor returns the document of the fallback analyzer. In that document
  \<open>metadata.analysis_method\<close> is \<open>fallback_rule_based\<close>, and the extracted fields
  include \<open>content_analysis.word_count\<close>.
\<close>

theorem extractor_caps_chunks_and_falls_back:
  "\<exists>chunks. chunkText t 3500 = Some chunks
     \<and> analyzeTextWithAI e t ct =
         (case extraction_loop e ct (take 2 chunks) 0 (VObj []) of
            Finished combinedAnalysis \<Rightarrow>
              if length (own_props combinedAnalysis) > 0 then Returns combinedAnalysis
              else Returns (fallbackAnalysis (clock e) t ct)
          | Thrown \<Rightarrow> Returns (fallbackAnalysis (clock e) t ct)
          | Left b \<Rightarrow> Beyond b)
     \<and> ((\<forall>i<2. i < length chunks
             \<longrightarrow> \<not> yields_document e i (extraction_request ct (chunks ! i)))
          \<longrightarrow> analyzeTextWithAI e t ct = Returns (fallbackAnalysis (clock e) t ct))
     \<and> (unset (CLOUDFLARE_ACCOUNT_ID e) \<or> unset (CLOUDFLARE_API_TOKEN e)
          \<longrightarrow> analyzeTextWithAI e t ct = Returns (fallbackAnalysis (clock e) t ct))
     \<and> at_path (fallbackAnalysis (clock e) t ct) [''metadata'', ''analysis_method'']
          = Some (VStr ''fallback_rule_based'')
     \<and> ''content_analysis.word_count''
          \<in> set (extractFields (fallbackAnalysis (clock e) t ct) [])"
proof -
  obtain chunks where c: "chunkText t 3500 = Some chunks"
    using chunkText_3500_returns by blast
  have "unset (CLOUDFLARE_ACCOUNT_ID e) \<or> unset (CLOUDFLARE_API_TOKEN e)
          \<longrightarrow> analyzeTextWithAI e t ct = Returns (fallbackAnalysis (clock e) t ct)"
    using extractor_nothing [OF c] no_credentials_no_document by blast
  then show ?thesis
    using c extractor_by_loop [OF c] extractor_nothing [OF c] fallback_method fallback_fields
    by blast
qed

theorem extractor_caps_chunks_and_falls_back_witness:
  "unset (CLOUDFLARE_ACCOUNT_ID no_credentials)
   \<and> analyzeTextWithAI no_credentials ''The quick brown fox jumps over the lazy dog.''
         ''General Text''
       = Returns (fallbackAnalysis (clock no_credentials)
           ''The quick brown fox jumps over the lazy dog.'' ''General Text'')
   \<and> at_path (fallbackAnalysis (clock no_credentials)
           ''The quick brown fox jumps over the lazy dog.'' ''General Text'')
         [''metadata'', ''analysis_method'']
       = Some (VStr ''fallback_rule_based'')"
proof -
  have u: "unset (CLOUDFLARE_ACCOUNT_ID no_credentials)"
    by (simp add: no_credentials_def unset_def)
  from extractor_caps_chunks_and_falls_back
    [of "''The quick brown fox jumps over the lazy dog.''" no_credentials "''General Text''"] u
  show ?thesis by blast
qed

section \<open>The extractor on a text of two chunks\<close>

lemma chunk_end_plain:
  assumes "CHR ''.'' \<notin> set t" "CHR 0x0A \<notin> set t" "0 \<le> s"
  shows "chunk_end t m s = min (s + int m) (int (length t))"
proof -
  have "0 \<le> s * 2 ^ 53" using assms(3) by simp
  then have "0 \<le> index_plus s (times_seven_tenths m)"
    using index_plus_ge [of s m] by (rule order_trans)
  then show ?thesis using assms by (simp add: chunk_end_def Let_def lastIndexOf_absent)
qed

lemma two_chunks:
  "chunkText two_chunk_text 3500
     = Some [''alpha beta gamma delta '' @ replicate 3477 CHR ''e'', replicate 23 CHR ''e'']"
proof -
  have a: "CHR ''.'' \<notin> set two_chunk_text" "CHR 0x0A \<notin> set two_chunk_text"
    by (simp_all add: two_chunk_text_def)
  have l: "length two_chunk_text = 3523" by (simp add: two_chunk_text_def)
  show ?thesis
    apply (simp add: chunkText_def l)
    apply (subst chunk_loop.simps)
    apply (simp add: l chunk_end_plain [OF a])
    apply (subst chunk_loop.simps)
    apply (simp add: l chunk_end_plain [OF a])
    apply (subst chunk_loop.simps)
    apply (simp add: l)
    apply (simp add: two_chunk_text_def substring_def trim_def dropWhile_replicate is_space_def charCode_def)
    done
qed


lemma sample_answers:
  "cleanJson ''{\"a\":1}'' = ''{\"a\":1}''"
  "cleanJson ''{\"b\":2}'' = ''{\"b\":2}''"
  "cleanJson ''Here is the JSON: {\"b\":2} Done.'' = ''Here is the JSON: {\"b\":2} Done.''"
  "search braces ''Here is the JSON: {\"b\":2} Done.''
     = Some (''Here is the JSON: '', ''{\"b\":2}'', '' Done.'')"
  "mergeAnalysisResults (VObj [(''a'', VNum (Fin 1))]) (VObj [(''b'', VNum (Fin 2))])
     = Inr (VObj [(''a'', VNum (Fin 1)), (''b'', VNum (Fin 2))])"
  by code_simp+

lemma wrapping_loop:
  assumes "2 \<le> length chunks"
  shows "extraction_loop wrapping_service ct chunks 0 (VObj []) = Finished (VObj [(''a'', VNum (Fin 1))])"
proof -
  have 0: "(0::nat) < min (length chunks) 2" and 1: "0 + 1 < min (length chunks) 2"
    and 2: "min (length chunks) 2 \<le> 0 + 1 + 1"
    using assms by simp_all
  show ?thesis
    unfolding loop_unfold [OF 0] loop_unfold [OF 1] loop_past_end [OF 2]
    by (simp add: loop_body_def callCloudflareAI_def wrapping_service_def unset_def
          sample_answers sample_parse_def parse_object_def is_object_def del: search.simps)
qed

lemma strict_loop:
  assumes "2 \<le> length chunks"
  shows "extraction_loop strict_service ct chunks 0 (VObj [])
       = Finished (VObj [(''a'', VNum (Fin 1)), (''b'', VNum (Fin 2))])"
proof -
  have 0: "(0::nat) < min (length chunks) 2" and 1: "0 + 1 < min (length chunks) 2"
    and 2: "min (length chunks) 2 \<le> 0 + 1 + 1"
    using assms by simp_all
  show ?thesis
    unfolding loop_unfold [OF 0] loop_unfold [OF 1] loop_past_end [OF 2]
    by (simp add: loop_body_def callCloudflareAI_def strict_service_def unset_def
          sample_answers sample_parse_def parse_object_def is_object_def del: search.simps)
qed

text \<open>
  C3, at an input where the code departs from it. The text has two chunks. Both services
  answer the first chunk with \<open>{"a":1}\<close>. Where the answer to the second chunk is
  \<open>{"b":2}\<close> the loop merges it, and the extractor returns \<open>{"a":1,"b":2}\<close>.
  Where the answer is the same document inside a sentence, strict parsing fails, the part
  in braces parses, and the extractor returns \<open>{"a":1}\<close>: the recovery keeps its
  result for the first chunk only.
\<close>

theorem recovered_later_chunk_dropped:
  "analyzeTextWithAI wrapping_service two_chunk_text ''General Text''
     = Returns (VObj [(''a'', VNum (Fin 1))])
   \<and> analyzeTextWithAI strict_service two_chunk_text ''General Text''
     = Returns (VObj [(''a'', VNum (Fin 1)), (''b'', VNum (Fin 2))])"
  by (simp add: analyzeTextWithAI_def two_chunks wrapping_loop strict_loop)

section \<open>A merge that raises\<close>

lemma dimensions_answers:
  "cleanJson ''{\"dimensions\":[],\"tags\":[\"a\"]}'' = ''{\"dimensions\":[],\"tags\":[\"a\"]}''"
  "cleanJson ''{\"dimensions\":{\"length\":\"5m\",\"width\":\"2m\"},\"tags\":[\"b\"]}''
     = ''{\"dimensions\":{\"length\":\"5m\",\"width\":\"2m\"},\"tags\":[\"b\"]}''"
  by code_simp+

lemma dimensions_merge:
  "mergeAnalysisResults
     (VObj [(''dimensions'', VArr []), (''tags'', VArr [VStr ''a''])])
     (VObj [(''dimensions'', VObj [(''length'', VStr ''5m''), (''width'', VStr ''2m'')]),
            (''tags'', VArr [VStr ''b''])])
   = Inl (Raised (RangeError ''Invalid array length'')
            (VObj [(''dimensions'', VArr []), (''tags'', VArr [VStr ''a''])]))"
  by code_simp

lemma dimensions_loop:
  assumes "2 \<le> length chunks"
  shows "extraction_loop dimensions_service ct chunks 0 (VObj [])
       = Finished (VObj [(''dimensions'', VArr []), (''tags'', VArr [VStr ''a''])])"
proof -
  have 0: "(0::nat) < min (length chunks) 2" and 1: "0 + 1 < min (length chunks) 2"
    and 2: "min (length chunks) 2 \<le> 0 + 1 + 1"
    using assms by simp_all
  show ?thesis
    unfolding loop_unfold [OF 0] loop_unfold [OF 1] loop_past_end [OF 2]
    by (simp add: loop_body_def callCloudflareAI_def dimensions_service_def unset_def
          dimensions_answers dimensions_merge dimensions_parse_def is_object_def
          del: search.simps)
qed

text \<open>
  C6, at an input where the code departs from it. The target is
  \<open>{"dimensions": [], "tags": ["a"]}\<close> and the source is
  \<open>{"dimensions": {"length": "5m", "width": "2m"}, "tags": ["b"]}\<close>: both hold an
  array at \<open>tags\<close>. The merge takes the key \<open>dimensions\<close> first. The branch for
  nested objects tests the type \<open>object\<close>, which an array has as well, and merges the
  object of the source into the empty array of the target. There the key \<open>length\<close>
  finds the length 0 of the array, which counts as false, and the last branch assigns
  \<open>"5m"\<close> to it: the assignment raises a \<open>RangeError\<close>. The merge ends with the
  exception, the key \<open>tags\<close> is not reached, and the target keeps \<open>["a"]\<close>. In the
  extractor the exception is caught with those of the parse: for a text of two chunks
  answered with these two documents it returns the first document.
\<close>

theorem merge_raises_before_arrays:
  "mergeAnalysisResults
     (VObj [(''dimensions'', VArr []), (''tags'', VArr [VStr ''a''])])
     (VObj [(''dimensions'', VObj [(''length'', VStr ''5m''), (''width'', VStr ''2m'')]),
            (''tags'', VArr [VStr ''b''])])
   = Inl (Raised (RangeError ''Invalid array length'')
            (VObj [(''dimensions'', VArr []), (''tags'', VArr [VStr ''a''])]))
   \<and> analyzeTextWithAI dimensions_service two_chunk_text ''General Text''
     = Returns (VObj [(''dimensions'', VArr []), (''tags'', VArr [VStr ''a''])])"
  by (simp add: dimensions_merge analyzeTextWithAI_def two_chunks dimensions_loop)

section \<open>Properties of the validation\<close>

lemma exec_at_spaces_none: "\<not> is_space c \<Longrightarrow> exec_at spaces (c # cs) = None"
  by (simp add: exec_at_def spaces_def Plus_def)

lemma split_from_no_space:
  "\<not> is_space c \<Longrightarrow> split_from spaces piece (replicate n c) = [piece @ replicate n c]"
proof (induction n arbitrary: piece)
  case 0
  then show ?case by simp
next
  case (Suc n)
  then show ?case by (simp add: exec_at_spaces_none replicate_app_Cons_same)
qed

lemma words_of_repeated:
  assumes "\<not> is_space c" "0 < n"
  shows "words_of (replicate n c) = [replicate n c]"
  using assms split_from_no_space [of c "[]" n]
  by (simp add: words_of_def split_re_def)

lemma trim_repeated:
  assumes "\<not> is_space c"
  shows "trim (replicate n c) = replicate n c"
  using assms by (simp add: trim_def dropWhile_replicate)

lemma analyzeText_repeated:
  assumes "\<not> is_space c" "0 < n"
  shows "analyzeText e (replicate n c) = Returns (Failure ''Text is too short for meaningful analysis'')"
  using assms by (simp add: analyzeText_def trim_repeated words_of_repeated)

text \<open>A longer text gets the length-limit message when it has at least five words.\<close>

lemma analyzeText_too_long:
  assumes "trim t \<noteq> []" "\<not> length (words_of t) < 5" "50000 < length t"
  shows "analyzeText e t
       = Returns (Failure ''Text is too long. Please limit to 50,000 characters or less.'')"
  using assms by (simp add: analyzeText_def)

text \<open>
  C2, as the code has it. A character that is not white space, repeated 60,000 times, is
  one word. The validation counts the words before it looks at the length, so the
  pipeline fails with the message for a text that is too short.
\<close>

theorem analyzeText_repeated_character:
  "\<not> is_space c \<Longrightarrow>
     analyzeText e (replicate 60000 c)
       = Returns (Failure ''Text is too short for meaningful analysis'')"
  using analyzeText_repeated [of c 60000 e] by simp

theorem analyzeText_repeated_character_witness:
  "\<not> is_space CHR ''a'' \<and>
     analyzeText no_credentials (replicate 60000 CHR ''a'')
       = Returns (Failure ''Text is too short for meaningful analysis'')"
proof -
  have h: "\<not> is_space CHR ''a''" by (simp add: is_space_def charCode_def)
  from analyzeText_repeated_character [OF h] h show ?thesis by blast
qed

text \<open>
  C2 as the claim words it fails for the letter a: the failure is not the length-limit
  message.
\<close>

theorem analyzeText_length_limit_counterexample:
  "\<not> is_space CHR ''a'' \<and>
     analyzeText no_credentials (replicate 60000 CHR ''a'')
       \<noteq> Returns (Failure ''Text is too long. Please limit to 50,000 characters or less.'')"
proof -
  have h: "\<not> is_space CHR ''a''" by (simp add: is_space_def charCode_def)
  have "analyzeText no_credentials (replicate 60000 CHR ''a'')
       = Returns (Failure ''Text is too short for meaningful analysis'')"
    using analyzeText_repeated [OF h, of 60000] by simp
  then show ?thesis using h by simp
qed

end
